theory Spec2Isabelle
  imports Main
begin

section \<open>Python strings and lists\<close>

text \<open>
  The cleaning routine \<^verbatim>\<open>clean_data\<close> of \<^verbatim>\<open>lambda_csv_processing.py\<close> works on Python
  strings. A Python \<^verbatim>\<open>str\<close> is a sequence of code points; it is modelled as a \<open>string\<close>, a
  \<open>char\<close> standing for the code point of the same number, so the model covers the code
  points below 256. The string methods the routine calls are written out here.
\<close>

datatype py_error = IndexError | KeyError | ValueError | TypeError | OverflowError | RegexError

text \<open>\<^verbatim>\<open>c.isspace()\<close>: the white space that \<^verbatim>\<open>strip()\<close> removes.\<close>

definition py_isspace :: "char \<Rightarrow> bool" where
  "py_isspace c = (c \<in> set [CHR 0x09, CHR 0x0A, CHR 0x0B, CHR 0x0C, CHR 0x0D,
     CHR 0x1C, CHR 0x1D, CHR 0x1E, CHR 0x1F, CHR 0x20, CHR 0x85, CHR 0xA0])"

definition py_lstrip :: "string \<Rightarrow> string" where
  "py_lstrip s = dropWhile py_isspace s"

definition py_rstrip :: "string \<Rightarrow> string" where
  "py_rstrip s = rev (dropWhile py_isspace (rev s))"

text \<open>\<^verbatim>\<open>s.strip()\<close>\<close>

definition py_strip :: "string \<Rightarrow> string" where
  "py_strip s = py_rstrip (py_lstrip s)"

text \<open>
  \<^verbatim>\<open>s.isnumeric()\<close>: at least one character, and every character numeric. Below 256 the
  numeric characters are the ten digits, the superscripts two, three and one and the three
  vulgar fractions.
\<close>

definition py_numeric_char :: "char \<Rightarrow> bool" where
  "py_numeric_char c = (c \<in> set ''0123456789'' \<or>
     c \<in> set [CHR 0xB2, CHR 0xB3, CHR 0xB9, CHR 0xBC, CHR 0xBD, CHR 0xBE])"

definition py_isnumeric :: "string \<Rightarrow> bool" where
  "py_isnumeric s = (s \<noteq> [] \<and> list_all py_numeric_char s)"

text \<open>\<^verbatim>\<open>s.split(sep)\<close> for a separator of one character: never an empty list.\<close>

fun py_split :: "char \<Rightarrow> string \<Rightarrow> string list" where
  "py_split sep [] = [[]]"
| "py_split sep (c # cs) =
     (let rest = py_split sep cs
      in if c = sep then [] # rest else (c # hd rest) # tl rest)"

text \<open>
  \<^verbatim>\<open>s.replace(old, new)\<close>: the occurrences of \<open>old\<close> are replaced from the left, without
  overlap; an empty \<open>old\<close> matches before every character and at the end.
\<close>

function py_replace :: "string \<Rightarrow> string \<Rightarrow> string \<Rightarrow> string" where
  "py_replace old new [] = (if old = [] then new else [])"
| "py_replace old new (c # cs) =
     (if old = [] then new @ c # py_replace old new cs
      else if take (length old) (c # cs) = old
        then new @ py_replace old new (drop (length old) (c # cs))
      else c # py_replace old new cs)"
  by pat_completeness auto
termination
  by (relation "measure (\<lambda>(old, new, s). length s)") auto

declare py_replace.simps(2) [simp del]

text \<open>\<^verbatim>\<open>sub in s\<close> on strings: \<open>sub\<close> occurs in \<open>s\<close> as a contiguous run.\<close>

fun py_in :: "string \<Rightarrow> string \<Rightarrow> bool" where
  "py_in sub [] = (sub = [])"
| "py_in sub (c # cs) = (take (length sub) (c # cs) = sub \<or> py_in sub cs)"

text \<open>\<^verbatim>\<open>s.endswith(suffix)\<close>\<close>

definition py_endswith :: "string \<Rightarrow> string \<Rightarrow> bool" where
  "py_endswith s suffix =
     (length suffix \<le> length s \<and> drop (length s - length suffix) s = suffix)"

text \<open>
  \<^verbatim>\<open>xs[i]\<close> for an index that is not negative: out of range raises \<^verbatim>\<open>IndexError\<close>.
  \<^verbatim>\<open>del xs[i]\<close> is used by the routine only after \<^verbatim>\<open>xs[i]\<close> was read.
\<close>

definition py_get :: "'a list \<Rightarrow> nat \<Rightarrow> py_error + 'a" where
  "py_get xs i = (if i < length xs then Inr (xs ! i) else Inl IndexError)"

definition py_del :: "'a list \<Rightarrow> nat \<Rightarrow> 'a list" where
  "py_del xs i = take i xs @ drop (Suc i) xs"

section \<open>Row parser and field repair pass\<close>

text \<open>
  \<^verbatim>\<open>data = [row.split(",") for row in raw_text]\<close>: every raw line, the header line included,
  is cut at its commas.
\<close>

definition split_rows :: "string list \<Rightarrow> string list list" where
  "split_rows raw_text = map (py_split CHR '','') raw_text"

text \<open>
  The body of the loop of \<^verbatim>\<open>extract_income\<close>, for one row:
  \<^verbatim>\<open>
  if row[4].replace("$", "").strip().isnumeric() and row[5].strip().isnumeric():
      row[4] = row[4] + row[5]
      row[5] = row[6]
      del row[6]
  \<close>
  The fields are read without a check of the row's length, and \<^verbatim>\<open>and\<close> reads \<^verbatim>\<open>row[5]\<close>
  only when the first test holds. The row is a list that the statements change in place:
  the model gives the row as the body leaves it, and the exception when one is raised.
  When \<^verbatim>\<open>row[6]\<close> is missing, \<^verbatim>\<open>row[4]\<close> has been assigned before the error is raised.
\<close>

definition extract_income_body :: "string list \<Rightarrow> string list \<times> py_error option" where
  "extract_income_body row =
     (case py_get row 4 of
        Inl e \<Rightarrow> (row, Some e)
      | Inr f4 \<Rightarrow>
          if py_isnumeric (py_strip (py_replace ''$'' '''' f4)) then
            (case py_get row 5 of
               Inl e \<Rightarrow> (row, Some e)
             | Inr f5 \<Rightarrow>
                 if py_isnumeric (py_strip f5) then
                   (let merged = row[4 := f4 @ f5]
                    in case py_get merged 6 of
                         Inl e \<Rightarrow> (merged, Some e)
                       | Inr f6 \<Rightarrow> (py_del (merged[5 := f6]) 6, None))
                 else (row, None))
          else (row, None))"

text \<open>
  What the loop goes on with after the body: the row as the body left it, or the
  exception, which leaves the routine.
\<close>

definition extract_income_row :: "string list \<Rightarrow> py_error + string list" where
  "extract_income_row row =
     (case extract_income_body row of
        (row', None) \<Rightarrow> Inr row'
      | (row', Some e) \<Rightarrow> Inl e)"

text \<open>
  \<^verbatim>\<open>extract_income\<close>: the loop runs over every row of the table, the header row first; the
  first failing row ends it.
\<close>

fun extract_income :: "string list list \<Rightarrow> py_error + string list list" where
  "extract_income [] = Inr []"
| "extract_income (row # rows) =
     (case extract_income_row row of
        Inl e \<Rightarrow> Inl e
      | Inr row' \<Rightarrow>
          (case extract_income rows of
             Inl e \<Rightarrow> Inl e
           | Inr rows' \<Rightarrow> Inr (row' # rows')))"

section \<open>Columns\<close>

text \<open>
  A column of the table (a pandas \<^verbatim>\<open>Series\<close> with the default index) is the list of its
  values, in row order; every value is a string. The \<^verbatim>\<open>Series\<close> methods of the routine:
  \<^verbatim>\<open>column.str.replace(old, new)\<close> with a pattern read literally,
  \<^verbatim>\<open>column.replace(mapping)\<close>, which exchanges the values that are equal to a key of the
  mapping, and \<^verbatim>\<open>column.apply(f)\<close>.
\<close>

definition str_replace :: "string \<Rightarrow> string \<Rightarrow> string list \<Rightarrow> string list" where
  "str_replace old new column = map (py_replace old new) column"

definition series_replace :: "(string \<times> string) list \<Rightarrow> string list \<Rightarrow> string list" where
  "series_replace mapping column =
     map (\<lambda>v. case map_of mapping v of None \<Rightarrow> v | Some r \<Rightarrow> r) column"

definition series_apply :: "('a \<Rightarrow> 'b) \<Rightarrow> 'a list \<Rightarrow> 'b list" where
  "series_apply f column = map f column"

subsection \<open>Income\<close>

text \<open>
  \<^verbatim>\<open>
  data["Income"] = data["Income"].str.replace("$", "")
  data["Income"] = data["Income"].apply(lambda x: x + ".00" if "." not in x else x)
  data["Income"] = data["Income"].replace({".00": "unknown"})
  \<close>
\<close>

definition clean_income_column :: "string list \<Rightarrow> string list" where
  "clean_income_column column =
     series_replace [(''.00'', ''unknown'')]
       (series_apply (\<lambda>x. if \<not> py_in ''.'' x then x @ ''.00'' else x)
         (str_replace ''$'' [] column))"

subsection \<open>Country\<close>

text \<open>The two lookup tables of the routine; the keys of the second end in a carriage return.\<close>

definition country_usa_map :: "(string \<times> string) list" where
  "country_usa_map =
     [(''United States'', ''USA''), (''us'', ''USA''), ('' U.S.'', ''USA''), (''usa'', ''USA''),
      (''United States of America'', ''USA''), (''United states'', ''USA''),
      (''United Staes'', ''USA''), (''US'', ''USA'')]"

definition country_usa_map2 :: "(string \<times> string) list" where
  "country_usa_map2 =
     [(''USA'' @ [CHR 0x0D], ''USA''), (''United States'' @ [CHR 0x0D], ''USA''),
      (''us'' @ [CHR 0x0D], ''USA''), ('' U.S.'' @ [CHR 0x0D], ''USA''),
      (''usa'' @ [CHR 0x0D], ''USA''), (''United States of America'' @ [CHR 0x0D], ''USA''),
      (''United states'' @ [CHR 0x0D], ''USA''), (''United Staes'' @ [CHR 0x0D], ''USA''),
      (''US'' @ [CHR 0x0D], ''USA'')]"

text \<open>
  \<^verbatim>\<open>
  data["Country"] = data["Country"].str.replace("\n", "")
  data["Country"] = data["Country"].replace(country_usa_map)
  data["Country"] = data["Country"].replace(country_usa_map2)
  \<close>
\<close>

definition clean_country_column :: "string list \<Rightarrow> string list" where
  "clean_country_column column =
     series_replace country_usa_map2
       (series_replace country_usa_map (str_replace [CHR 0x0A] [] column))"

subsection \<open>Age\<close>

text \<open>\<^verbatim>\<open>data["Age"] = data["Age"].replace("", "unknown")\<close>\<close>

definition clean_age_column :: "string list \<Rightarrow> string list" where
  "clean_age_column column = series_replace [([], ''unknown'')] column"

subsection \<open>Date of birth\<close>

text \<open>
  \<^verbatim>\<open>standardize_dates\<close> calls \<^verbatim>\<open>dateutil\<close>'s \<^verbatim>\<open>parser.parse(date, dayfirst=True)\<close> and
  \<^verbatim>\<open>strftime('%Y-%m-%d')\<close> of the parsed date. Both belong to libraries and are parameters
  here: \<open>parse\<close> gives a date or raises, and so does \<open>strftime\<close>. The handler catches
  \<^verbatim>\<open>ValueError\<close> and \<^verbatim>\<open>TypeError\<close>; any other exception leaves the routine.
\<close>

definition standardize_date ::
  "(string \<Rightarrow> py_error + 'd) \<Rightarrow> ('d \<Rightarrow> py_error + string) \<Rightarrow> string \<Rightarrow> py_error + string" where
  "standardize_date parse strftime date =
     (case (case parse date of Inl e \<Rightarrow> Inl e | Inr parsed_date \<Rightarrow> strftime parsed_date) of
        Inl e \<Rightarrow> if e = ValueError \<or> e = TypeError then Inr ''unknown'' else Inl e
      | Inr formatted \<Rightarrow> Inr formatted)"

fun standardize_dates ::
  "(string \<Rightarrow> py_error + 'd) \<Rightarrow> ('d \<Rightarrow> py_error + string) \<Rightarrow> string list
     \<Rightarrow> py_error + string list" where
  "standardize_dates parse strftime [] = Inr []"
| "standardize_dates parse strftime (date # date_series) =
     (case standardize_date parse strftime date of
        Inl e \<Rightarrow> Inl e
      | Inr standardized \<Rightarrow>
          (case standardize_dates parse strftime date_series of
             Inl e \<Rightarrow> Inl e
           | Inr standardized_dates \<Rightarrow> Inr (standardized # standardized_dates)))"

subsection \<open>Email\<close>

text \<open>
  \<^verbatim>\<open>column.str.contains(label)\<close> reads \<open>label\<close> as a regular expression: the library
  compiles it, which can fail, and searches every value of the column with it. The
  regular expression library is a parameter: an engine maps a pattern to the predicate
  "the pattern is found in this string", or to \<open>None\<close> when the pattern does not compile.
\<close>

type_synonym regex_engine = "string \<Rightarrow> (string \<Rightarrow> bool) option"

definition str_contains :: "regex_engine \<Rightarrow> string \<Rightarrow> string list \<Rightarrow> py_error + bool list" where
  "str_contains engine pat column =
     (case engine pat of None \<Rightarrow> Inl RegexError | Some found \<Rightarrow> Inr (map found column))"

text \<open>
  \<^verbatim>\<open>column.value_counts()\<close>: the distinct values with the number of their occurrences, the
  most frequent first; values that occur equally often stay in the order in which they
  first appear in the column.
\<close>

definition value_counts :: "string list \<Rightarrow> (string \<times> nat) list" where
  "value_counts column =
     sort_key (\<lambda>(v, n). - int n)
       (map (\<lambda>v. (v, count_list column v)) (rev (remdups (rev column))))"

text \<open>
  The label list of an address in \<^verbatim>\<open>assume_subdomains\<close>: the text after its last
  \<^verbatim>\<open>@\<close>, without one final dot, cut at its dots.
  \<^verbatim>\<open>
  domain_and_subdomain = column.str.split("@").str[-1].apply(
      lambda x: x.split(".") if not x.endswith(".") else x[:-1].split("."))
  \<close>
\<close>

definition email_labels :: "string \<Rightarrow> string list" where
  "email_labels email =
     (let x = last (py_split CHR ''@'' email)
      in if \<not> py_endswith x ''.'' then py_split CHR ''.'' x
         else py_split CHR ''.'' (butlast x))"

definition domain_and_subdomain :: "string list \<Rightarrow> string list list" where
  "domain_and_subdomain column = map email_labels column"

text \<open>
  The second labels of the label lists that hold \<open>label\<close> and have more than one label:
  \<^verbatim>\<open>domain_and_subdomain[domains_with_subdomain].str[1]\<close>.
\<close>

definition subdomain_candidates :: "string \<Rightarrow> string list list \<Rightarrow> string list" where
  "subdomain_candidates label labels =
     map (\<lambda>x. x ! 1) (filter (\<lambda>x. label \<in> set x \<and> length x > 1) labels)"

text \<open>
  The function applied to the rows to fill:
  \<^verbatim>\<open>lambda x: (x + "." + suffix) if not x.endswith(".") else (x + suffix)\<close>, and the
  assignment \<^verbatim>\<open>column[rows_to_fill] = column[rows_to_fill].apply(...)\<close>.
\<close>

definition fill_subdomain :: "string \<Rightarrow> string \<Rightarrow> string" where
  "fill_subdomain suffix x =
     (if \<not> py_endswith x ''.'' then x @ ''.'' @ suffix else x @ suffix)"

definition fill_rows :: "bool list \<Rightarrow> string \<Rightarrow> string list \<Rightarrow> string list" where
  "fill_rows rows_to_fill suffix column =
     map (\<lambda>(fill, x). if fill then fill_subdomain suffix x else x) (zip rows_to_fill column)"

text \<open>
  One round of the loop of \<^verbatim>\<open>assume_subdomains\<close>, for a label:
  \<^verbatim>\<open>
  domains_with_subdomain = domain_and_subdomain.apply(lambda x: label in x and len(x) > 1)
  most_frequent_subdomain = domain_and_subdomain[domains_with_subdomain].str[1].value_counts()
  if len(most_frequent_subdomain) > 0:
      most_frequent_subdomain = most_frequent_subdomain.index[0]
      rows_to_fill = emails_without_subdomain & (column.str.contains(label))
      column[rows_to_fill] = column[rows_to_fill].apply(...)
  else:
      rows_to_fill = emails_without_subdomain & (column.str.contains(label))
      column[rows_to_fill] = column[rows_to_fill].apply(...)     # with "com"
  \<close>
  The label lists and \<^verbatim>\<open>emails_without_subdomain\<close> are those computed before the loop; the
  column is the one the earlier rounds have left.
\<close>

definition subdomain_round ::
  "regex_engine \<Rightarrow> string list list \<Rightarrow> bool list \<Rightarrow> string \<Rightarrow> string list
     \<Rightarrow> py_error + string list" where
  "subdomain_round engine labels emails_without_subdomain label column =
     (let most_frequent_subdomain = value_counts (subdomain_candidates label labels)
      in if length most_frequent_subdomain > 0 then
           (case str_contains engine label column of
              Inl e \<Rightarrow> Inl e
            | Inr found \<Rightarrow>
                Inr (fill_rows (map (\<lambda>(a, b). a \<and> b) (zip emails_without_subdomain found))
                       (fst (hd most_frequent_subdomain)) column))
         else
           (case str_contains engine label column of
              Inl e \<Rightarrow> Inl e
            | Inr found \<Rightarrow>
                Inr (fill_rows (map (\<lambda>(a, b). a \<and> b) (zip emails_without_subdomain found))
                       ''com'' column)))"

fun subdomain_loop ::
  "regex_engine \<Rightarrow> string list list \<Rightarrow> bool list \<Rightarrow> string list \<Rightarrow> string list
     \<Rightarrow> py_error + string list" where
  "subdomain_loop engine labels emails_without_subdomain [] column = Inr column"
| "subdomain_loop engine labels emails_without_subdomain (label # domain_labels) column =
     (case subdomain_round engine labels emails_without_subdomain label column of
        Inl e \<Rightarrow> Inl e
      | Inr column' \<Rightarrow>
          subdomain_loop engine labels emails_without_subdomain domain_labels column')"

text \<open>
  \<^verbatim>\<open>assume_subdomains\<close>: the loop runs over the label lists of length one, in row order, one
  round for every such row, with the only label of the list.
\<close>

definition assume_subdomains :: "regex_engine \<Rightarrow> string list \<Rightarrow> py_error + string list" where
  "assume_subdomains engine column0 =
     (let column = map py_strip column0;
          labels = domain_and_subdomain column;
          emails_without_subdomain = map (\<lambda>x. length x = 1) labels;
          domain_labels = filter (\<lambda>x. length x = 1) labels
      in subdomain_loop engine labels emails_without_subdomain
           (map (\<lambda>label. label ! 0) domain_labels) column)"

text \<open>
  \<^verbatim>\<open>
  data["Email"] = data["Email"].str.replace("@@", "@")
  data["Email"] = assume_subdomains(data["Email"])
  data["Email"] = data["Email"].replace({".com": "unknown"})
  \<close>
\<close>

definition clean_email_column :: "regex_engine \<Rightarrow> string list \<Rightarrow> py_error + string list" where
  "clean_email_column engine column =
     (case assume_subdomains engine (str_replace ''@@'' ''@'' column) of
        Inl e \<Rightarrow> Inl e
      | Inr inferred \<Rightarrow> Inr (series_replace [(''.com'', ''unknown'')] inferred))"

text \<open>
  An engine for the patterns without a metacharacter of regular expressions: such a
  pattern is found in a string exactly when it occurs in it. Other patterns are outside
  this engine, which gives \<open>None\<close> for them.
\<close>

definition plain_engine :: regex_engine where
  "plain_engine pat =
     (if list_all (\<lambda>c. c \<notin> set (''.^$*+?{}[]|()'' @ [CHR 0x5C])) pat then Some (py_in pat)
      else None)"

subsection \<open>Name\<close>

text \<open>
  \<^verbatim>\<open>data["Name"].str.title()\<close>: the title case of a string is the library's and is a
  parameter of the model. \<open>ascii_title\<close> is \<^verbatim>\<open>str.title()\<close> on ASCII strings: a letter is put
  in upper case when the character before it is not a letter, in lower case otherwise.
\<close>

definition ascii_upper :: "char \<Rightarrow> char" where
  "ascii_upper c =
     (case map_of (zip ''abcdefghijklmnopqrstuvwxyz'' ''ABCDEFGHIJKLMNOPQRSTUVWXYZ'') c of
        None \<Rightarrow> c | Some u \<Rightarrow> u)"

definition ascii_lower :: "char \<Rightarrow> char" where
  "ascii_lower c =
     (case map_of (zip ''ABCDEFGHIJKLMNOPQRSTUVWXYZ'' ''abcdefghijklmnopqrstuvwxyz'') c of
        None \<Rightarrow> c | Some l \<Rightarrow> l)"

fun title_from :: "bool \<Rightarrow> string \<Rightarrow> string" where
  "title_from previous_is_cased [] = []"
| "title_from previous_is_cased (c # cs) =
     (if previous_is_cased then ascii_lower c else ascii_upper c)
       # title_from (ascii_upper c \<noteq> c \<or> ascii_lower c \<noteq> c) cs"

definition ascii_title :: "string \<Rightarrow> string" where
  "ascii_title s = title_from False s"

section \<open>The table\<close>

text \<open>
  The table (a pandas \<^verbatim>\<open>DataFrame\<close>) is held by columns: the column labels, in the order
  of the header row, each with its column. The labels of a table are taken to be distinct.
  \<^verbatim>\<open>data[name]\<close> raises \<^verbatim>\<open>KeyError\<close> when no column has the label, and
  \<^verbatim>\<open>data[name] = column\<close> puts the column in the place of the one with that label, or
  after the last column when there is none.
\<close>

type_synonym data_frame = "(string \<times> string list) list"

definition get_column :: "data_frame \<Rightarrow> string \<Rightarrow> py_error + string list" where
  "get_column data name =
     (case map_of data name of None \<Rightarrow> Inl KeyError | Some column \<Rightarrow> Inr column)"

fun set_column :: "string \<Rightarrow> string list \<Rightarrow> data_frame \<Rightarrow> data_frame" where
  "set_column name column [] = [(name, column)]"
| "set_column name column ((label, old) # data) =
     (if label = name then (label, column) # data
      else (label, old) # set_column name column data)"

text \<open>\<^verbatim>\<open>data[name] = f(data[name])\<close>, for an \<open>f\<close> that can raise.\<close>

definition assign_column ::
  "string \<Rightarrow> (string list \<Rightarrow> py_error + string list) \<Rightarrow> data_frame \<Rightarrow> py_error + data_frame" where
  "assign_column name f data =
     (case get_column data name of
        Inl e \<Rightarrow> Inl e
      | Inr column \<Rightarrow>
          (case f column of
             Inl e \<Rightarrow> Inl e
           | Inr column' \<Rightarrow> Inr (set_column name column' data)))"

text \<open>\<^verbatim>\<open>data.rename(columns=mapping)\<close>: the labels that are keys of the mapping are exchanged.\<close>

definition rename_columns :: "(string \<times> string) list \<Rightarrow> data_frame \<Rightarrow> data_frame" where
  "rename_columns mapping data =
     map (\<lambda>(label, column).
            (case map_of mapping label of None \<Rightarrow> label | Some label' \<Rightarrow> label', column)) data"

text \<open>A step that can raise, followed by the next one.\<close>

definition and_then :: "py_error + 'a \<Rightarrow> ('a \<Rightarrow> py_error + 'b) \<Rightarrow> py_error + 'b" where
  "and_then r f = (case r of Inl e \<Rightarrow> Inl e | Inr x \<Rightarrow> f x)"

text \<open>The six cleaning steps of \<^verbatim>\<open>clean_data\<close>, statement by statement, in the order of the routine.\<close>

definition clean_income :: "data_frame \<Rightarrow> py_error + data_frame" where
  "clean_income data =
     and_then (assign_column ''Income'' (\<lambda>column. Inr (str_replace ''$'' [] column)) data)
       (\<lambda>data.
     and_then (assign_column ''Income''
         (\<lambda>column. Inr (series_apply (\<lambda>x. if \<not> py_in ''.'' x then x @ ''.00'' else x) column))
         data)
       (\<lambda>data.
     assign_column ''Income''
       (\<lambda>column. Inr (series_replace [(''.00'', ''unknown'')] column)) data))"

definition clean_country :: "data_frame \<Rightarrow> py_error + data_frame" where
  "clean_country data0 =
     (let data = rename_columns
            [(''Country'' @ [CHR 0x0A], ''Country''),
             (''Country'' @ [CHR 0x0D, CHR 0x0A], ''Country'')] data0
      in
     and_then (assign_column ''Country'' (\<lambda>column. Inr (str_replace [CHR 0x0A] [] column)) data)
       (\<lambda>data.
     and_then (assign_column ''Country''
         (\<lambda>column. Inr (series_replace country_usa_map column)) data)
       (\<lambda>data.
     assign_column ''Country'' (\<lambda>column. Inr (series_replace country_usa_map2 column)) data)))"

definition clean_name :: "(string \<Rightarrow> string) \<Rightarrow> data_frame \<Rightarrow> py_error + data_frame" where
  "clean_name title data = assign_column ''Name'' (\<lambda>column. Inr (map title column)) data"

definition clean_email :: "regex_engine \<Rightarrow> data_frame \<Rightarrow> py_error + data_frame" where
  "clean_email engine data =
     and_then (assign_column ''Email'' (\<lambda>column. Inr (str_replace ''@@'' ''@'' column)) data)
       (\<lambda>data.
     and_then (assign_column ''Email'' (assume_subdomains engine) data)
       (\<lambda>data.
     assign_column ''Email''
       (\<lambda>column. Inr (series_replace [(''.com'', ''unknown'')] column)) data))"

definition clean_date ::
  "(string \<Rightarrow> py_error + 'd) \<Rightarrow> ('d \<Rightarrow> py_error + string) \<Rightarrow> data_frame
     \<Rightarrow> py_error + data_frame" where
  "clean_date parse strftime data =
     assign_column ''Date of Birth'' (standardize_dates parse strftime) data"

definition clean_age :: "data_frame \<Rightarrow> py_error + data_frame" where
  "clean_age data =
     assign_column ''Age'' (\<lambda>column. Inr (series_replace [([], ''unknown'')] column)) data"

text \<open>The steps in sequence: the part of \<^verbatim>\<open>clean_data\<close> after the table is built.\<close>

definition clean_columns ::
  "(string \<Rightarrow> string) \<Rightarrow> regex_engine \<Rightarrow> (string \<Rightarrow> py_error + 'd) \<Rightarrow> ('d \<Rightarrow> py_error + string)
     \<Rightarrow> data_frame \<Rightarrow> py_error + data_frame" where
  "clean_columns title engine parse strftime data =
     and_then (clean_income data) (\<lambda>data.
     and_then (clean_country data) (\<lambda>data.
     and_then (clean_name title data) (\<lambda>data.
     and_then (clean_email engine data) (\<lambda>data.
     and_then (clean_date parse strftime data) (\<lambda>data.
     clean_age data)))))"

section \<open>The properties as the specification words them\<close>

text \<open>
  The numeric pattern of the field repair pass, as the routine tests it: field 4 without
  its dollar signs and surrounding white space is numeric, and so is field 5 without its
  surrounding white space. A row \<open>income_split\<close> is a row the pass takes for one with a
  split income; \<open>repaired_row\<close> is what the pass makes of a row it does not fail on.
\<close>

definition income_numeric :: "string list \<Rightarrow> bool" where
  "income_numeric row = py_isnumeric (py_strip (py_replace ''$'' [] (row ! 4)))"

definition fragment_numeric :: "string list \<Rightarrow> bool" where
  "fragment_numeric row = py_isnumeric (py_strip (row ! 5))"

definition income_split :: "string list \<Rightarrow> bool" where
  "income_split row = (5 < length row \<and> income_numeric row \<and> fragment_numeric row)"

definition repaired_row :: "string list \<Rightarrow> string list" where
  "repaired_row row =
     (if income_split row then take 4 row @ [row ! 4 @ row ! 5] @ drop 6 row else row)"

text \<open>
  The specification's wording of the pattern: field 4 "with a leading \<^verbatim>\<open>$\<close> stripped and
  surrounding whitespace trimmed" is numeric, and field 5 trimmed is numeric.
\<close>

definition strip_leading_dollar :: "string \<Rightarrow> string" where
  "strip_leading_dollar s = (case s of [] \<Rightarrow> [] | c # cs \<Rightarrow> if c = CHR ''$'' then cs else s)"

definition spec_income_split :: "string list \<Rightarrow> bool" where
  "spec_income_split row =
     (5 < length row \<and> py_isnumeric (py_strip (strip_leading_dollar (row ! 4)))
        \<and> py_isnumeric (py_strip (row ! 5)))"

text \<open>
  The specification's wording of the income normalizer: "strip \<^verbatim>\<open>$\<close> prefix; if no decimal
  point present, append \<^verbatim>\<open>.00\<close>; if the result is exactly \<^verbatim>\<open>.00\<close>, replace with sentinel
  \<^verbatim>\<open>unknown\<close>".
\<close>

definition spec_clean_income :: "string \<Rightarrow> string" where
  "spec_clean_income v =
     (let stripped = strip_leading_dollar v;
          result = (if CHR ''.'' \<notin> set stripped then stripped @ ''.00'' else stripped)
      in if result = ''.00'' then ''unknown'' else result)"

text \<open>
  The eight aliases the specification lists for the country normalizer, and its test "the
  value, after trimming a trailing carriage return and stripping line feeds, matches one
  of the aliases".
\<close>

definition usa_aliases :: "string list" where
  "usa_aliases =
     [''United States'', ''us'', '' U.S.'', ''usa'', ''United States of America'',
      ''United states'', ''United Staes'', ''US'']"

definition trim_trailing_cr :: "string \<Rightarrow> string" where
  "trim_trailing_cr s = (if s \<noteq> [] \<and> last s = CHR 0x0D then butlast s else s)"

definition matches_usa_alias :: "string \<Rightarrow> bool" where
  "matches_usa_alias v =
     (trim_trailing_cr (filter (\<lambda>c. c \<noteq> CHR 0x0A) v) \<in> set usa_aliases)"

text \<open>
  What the income normalizer makes of one value, in one expression: all dollar signs are
  taken out; a value that is then empty or \<^verbatim>\<open>.00\<close> becomes \<^verbatim>\<open>unknown\<close>; any other value
  without a decimal point gets \<^verbatim>\<open>.00\<close> at its end.
\<close>

definition income_value :: "string \<Rightarrow> string" where
  "income_value v =
     (let stripped = filter (\<lambda>c. c \<noteq> CHR ''$'') v
      in if stripped = [] \<or> stripped = ''.00'' then ''unknown''
         else if CHR ''.'' \<in> set stripped then stripped
         else stripped @ ''.00'')"

text \<open>
  What the country normalizer makes of one value, in one expression: the line feeds are
  taken out; a value that is then one of the eight aliases, or one of the eight aliases or
  \<^verbatim>\<open>USA\<close> followed by one carriage return, becomes \<^verbatim>\<open>USA\<close>.
\<close>

definition country_value :: "string \<Rightarrow> string" where
  "country_value v =
     (let w = filter (\<lambda>c. c \<noteq> CHR 0x0A) v
      in if w \<in> set usa_aliases \<or> w \<in> set (map (\<lambda>a. a @ [CHR 0x0D]) (''USA'' # usa_aliases))
         then ''USA'' else w)"

text \<open>
  The frame of a cleaning step on the column labelled \<open>name\<close>: the table after the step
  has the columns of the table before it, in the same places and under the same labels,
  and every column with another label holds what it held.
\<close>

definition same_outside :: "string \<Rightarrow> data_frame \<Rightarrow> data_frame \<Rightarrow> bool" where
  "same_outside name data data' =
     (length data' = length data \<and>
      (\<forall>i < length data.
         fst (data' ! i) = fst (data ! i) \<and> (fst (data ! i) \<noteq> name \<longrightarrow> data' ! i = data ! i)))"

text \<open>The labels the country step takes for the country column.\<close>

definition country_labels :: "string list" where
  "country_labels = [''Country'', ''Country'' @ [CHR 0x0A], ''Country'' @ [CHR 0x0D, CHR 0x0A]]"

text \<open>
  The rounds of the subdomain inference, address by address. \<open>round_labels\<close> are the
  labels the loop runs over: the only label of every address whose label list has length
  one, in row order, a label as often as it has such addresses. \<open>round_suffix\<close> is what
  the round for a label puts at the end of an address: the first of the second labels as
  \<^verbatim>\<open>value_counts\<close> orders them, or \<^verbatim>\<open>com\<close> when there is none. \<open>after_rounds\<close> is what the
  rounds make of an address: round after round, the address as it then is gets the
  round's suffix at its end when the round's label is found in it.
\<close>

definition round_labels :: "string list \<Rightarrow> string list" where
  "round_labels column =
     map (\<lambda>label. label ! 0)
       (filter (\<lambda>x. length x = 1) (map email_labels (map py_strip column)))"

definition round_suffix :: "string \<Rightarrow> string list list \<Rightarrow> string" where
  "round_suffix label labels =
     (case value_counts (subdomain_candidates label labels) of
        [] \<Rightarrow> ''com'' | (s, n) # rest \<Rightarrow> s)"

fun after_rounds :: "regex_engine \<Rightarrow> string list list \<Rightarrow> string list \<Rightarrow> string \<Rightarrow> string" where
  "after_rounds engine labels [] x = x"
| "after_rounds engine labels (label # domain_labels) x =
     after_rounds engine labels domain_labels
       (case engine label of
          None \<Rightarrow> x
        | Some found \<Rightarrow> if found x then fill_subdomain (round_suffix label labels) x else x)"

section \<open>Field repair pass: what it does to a row\<close>

lemmas py_string_defs =
  py_isnumeric_def py_numeric_char_def py_strip_def py_lstrip_def py_rstrip_def py_isspace_def
  py_replace.simps(2) py_endswith_def

lemma del_after_merge:
  assumes "6 < length row"
  shows "py_del ((row[4 := a])[5 := row ! 6]) 6 = take 4 row @ [a] @ drop 6 row"
proof -
  from assms have "\<exists>a0 a1 a2 a3 a4 a5 a6 rest. row = a0 # a1 # a2 # a3 # a4 # a5 # a6 # rest"
    by (auto simp: less_eq_Suc_le numeral_eq_Suc Suc_le_length_iff)
  then obtain a0 a1 a2 a3 a4 a5 a6 rest where "row = a0 # a1 # a2 # a3 # a4 # a5 # a6 # rest"
    by blast
  then show ?thesis by (simp add: py_del_def)
qed

lemma extract_income_row_cases:
  "extract_income_row row =
     (if length row \<le> 4 then Inl IndexError
      else if \<not> income_numeric row then Inr row
      else if length row \<le> 5 then Inl IndexError
      else if \<not> fragment_numeric row then Inr row
      else if length row \<le> 6 then Inl IndexError
      else Inr (take 4 row @ [row ! 4 @ row ! 5] @ drop 6 row))"
  by (simp add: extract_income_row_def extract_income_body_def py_get_def Let_def
      income_numeric_def fragment_numeric_def del_after_merge)

lemma extract_income_row_repaired:
  "extract_income_row row = Inr row' \<Longrightarrow> row' = repaired_row row"
  by (auto simp: extract_income_row_cases repaired_row_def income_split_def split: if_splits)

lemma extract_income_row_error:
  "extract_income_row row = Inl e \<Longrightarrow> e = IndexError"
  by (auto simp: extract_income_row_cases split: if_splits)

lemma extract_income_repaired:
  "extract_income data = Inr data' \<Longrightarrow> data' = map repaired_row data"
  by (induction data arbitrary: data')
    (auto split: sum.splits dest: extract_income_row_repaired)

lemma extract_income_error:
  "extract_income data = Inl e \<Longrightarrow> e = IndexError"
  by (induction data) (auto split: sum.splits dest: extract_income_row_error)

lemma extract_income_failing_row:
  "row \<in> set data \<Longrightarrow> extract_income_row row = Inl e \<Longrightarrow> extract_income data = Inl IndexError"
proof (induction data)
  case Nil
  then show ?case by simp
next
  case (Cons r data)
  show ?case
  proof (cases "extract_income_row r")
    case (Inl e')
    then show ?thesis by (simp add: extract_income_row_error)
  next
    case (Inr r')
    with Cons have "extract_income data = Inl IndexError" by auto
    with Inr show ?thesis by simp
  qed
qed

lemma length_repaired_row:
  "length (repaired_row row) = (if income_split row then length row - 1 else length row)"
  by (auto simp: repaired_row_def income_split_def)

text \<open>
  C3 (amended). The pass takes every dollar sign out of field 4 before the numeric test,
  not a leading one only, and it reads fields 4, 5 and 6 without a check of the row's
  length. For every row with at least 7 fields the pass gives \<open>repaired_row\<close>: when field 4
  without its dollar signs and surrounding white space is numeric and field 5 trimmed is
  numeric, the row becomes its fields 0 to 3, then field 4 followed by field 5 as one
  field, then the fields from 6 on, so field 6 comes to position 5 and the row has one
  field less; a row with at least 6 fields that does not match the pattern is left as it
  is. Whenever the pass does not fail on a table, every row of the result, the header row
  included, is the \<open>repaired_row\<close> of the row it comes from.
\<close>

theorem field_repair_pass:
  "(7 \<le> length row \<longrightarrow> extract_income_row row = Inr (repaired_row row))
   \<and> (6 \<le> length row \<and> \<not> income_split row \<longrightarrow> extract_income_row row = Inr row)
   \<and> (7 \<le> length row \<and> income_split row \<longrightarrow>
        repaired_row row = take 4 row @ [row ! 4 @ row ! 5] @ drop 6 row
        \<and> length (repaired_row row) = length row - 1
        \<and> repaired_row row ! 4 = row ! 4 @ row ! 5
        \<and> repaired_row row ! 5 = row ! 6)
   \<and> (\<not> income_split row \<longrightarrow> repaired_row row = row)
   \<and> (extract_income data = Inr data' \<longrightarrow> data' = map repaired_row data)"
proof -
  have a: "7 \<le> length row \<longrightarrow> extract_income_row row = Inr (repaired_row row)"
    by (auto simp: extract_income_row_cases repaired_row_def income_split_def)
  have b: "6 \<le> length row \<and> \<not> income_split row \<longrightarrow> extract_income_row row = Inr row"
    by (auto simp: extract_income_row_cases income_split_def)
  have c: "7 \<le> length row \<and> income_split row \<longrightarrow>
        repaired_row row = take 4 row @ [row ! 4 @ row ! 5] @ drop 6 row
        \<and> length (repaired_row row) = length row - 1
        \<and> repaired_row row ! 4 = row ! 4 @ row ! 5
        \<and> repaired_row row ! 5 = row ! 6"
    by (auto simp: repaired_row_def nth_append)
  have d: "\<not> income_split row \<longrightarrow> repaired_row row = row"
    by (simp add: repaired_row_def)
  have e: "extract_income data = Inr data' \<longrightarrow> data' = map repaired_row data"
    by (simp add: extract_income_repaired)
  from a b c d e show ?thesis by blast
qed

theorem field_repair_pass_witness:
  "extract_income_row [''John Doe'', ''j@@gmail.com'', ''04/03/2020'', ''35'', ''$1'', ''200'', ''USA'']
     = Inr [''John Doe'', ''j@@gmail.com'', ''04/03/2020'', ''35'', ''$1200'', ''USA'']
   \<and> extract_income_row [''Jane Roe'', ''jr@mail.foo.com'', ''01/02/1990'', ''40'', ''$900'', ''USA'']
     = Inr [''Jane Roe'', ''jr@mail.foo.com'', ''01/02/1990'', ''40'', ''$900'', ''USA'']"
proof -
  let ?split = "[''John Doe'', ''j@@gmail.com'', ''04/03/2020'', ''35'', ''$1'', ''200'', ''USA'']"
  let ?whole = "[''Jane Roe'', ''jr@mail.foo.com'', ''01/02/1990'', ''40'', ''$900'', ''USA'']"
  have split: "income_split ?split"
    by (simp add: income_split_def income_numeric_def fragment_numeric_def py_string_defs)
  have whole: "\<not> income_split ?whole"
    by (simp add: income_split_def income_numeric_def fragment_numeric_def py_string_defs)
  have "extract_income_row ?split = Inr (repaired_row ?split)"
    using field_repair_pass [of ?split] by simp
  moreover have "repaired_row ?split = take 4 ?split @ [?split ! 4 @ ?split ! 5] @ drop 6 ?split"
    using field_repair_pass [of ?split] split by simp
  moreover have "extract_income_row ?whole = Inr ?whole"
    using field_repair_pass [of ?whole] whole by simp
  ultimately show ?thesis by simp
qed

text \<open>
  C3, as the specification words it, fails. In the first row below field 4 is \<^verbatim>\<open>1$2\<close>,
  which with a leading dollar sign stripped is not numeric, so the row does not match the
  specification's pattern and should be left unchanged; the pass merges fields 4 and 5.
  The second row matches the pattern and has no field 6 to move: the pass does not take
  one field out of it, it fails.
\<close>

theorem field_repair_pass_counterexample:
  "\<not> spec_income_split [''a'', ''b'', ''c'', ''d'', ''1$2'', ''3'', ''g'']
   \<and> extract_income_row [''a'', ''b'', ''c'', ''d'', ''1$2'', ''3'', ''g'']
       = Inr [''a'', ''b'', ''c'', ''d'', ''1$23'', ''g'']
   \<and> spec_income_split [''a'', ''b'', ''c'', ''d'', ''$1'', ''200'']
   \<and> extract_income_row [''a'', ''b'', ''c'', ''d'', ''$1'', ''200''] = Inl IndexError"
  by (simp add: spec_income_split_def strip_leading_dollar_def extract_income_row_def
      extract_income_body_def py_get_def py_del_def py_string_defs)

text \<open>
  C4 (amended). The pass has no check of the row's length. On a row with fewer than 7
  fields it either fails with an index error or leaves the row as it is; it never hands
  on a changed row. It fails when the row has fewer than 5 fields, when it has 5 fields
  and field 4 is numeric, and when it has 6 fields and matches the numeric pattern. In the
  first two cases the row is untouched when the error is raised; in the third the row has
  already been changed in place when the error is raised: field 4 holds the old field 4
  followed by field 5, and nothing else is changed. A failing row makes the pass fail on
  the whole table.
\<close>

theorem short_rows:
  "(length row < 7 \<longrightarrow>
      extract_income_body row =
        (if length row < 5 \<or> (length row = 5 \<and> income_numeric row)
           then (row, Some IndexError)
         else if income_split row then (row[4 := row ! 4 @ row ! 5], Some IndexError)
         else (row, None)))
   \<and> (length row < 7 \<longrightarrow>
      extract_income_row row =
        (if length row < 5 \<or> (length row = 5 \<and> income_numeric row) \<or> income_split row
         then Inl IndexError else Inr row))
   \<and> (row \<in> set data \<and> extract_income_row row = Inl IndexError \<longrightarrow>
        extract_income data = Inl IndexError)"
proof -
  have "length row < 7 \<longrightarrow>
      extract_income_body row =
        (if length row < 5 \<or> (length row = 5 \<and> income_numeric row)
           then (row, Some IndexError)
         else if income_split row then (row[4 := row ! 4 @ row ! 5], Some IndexError)
         else (row, None))"
    by (auto simp: extract_income_body_def py_get_def Let_def income_split_def
        income_numeric_def fragment_numeric_def)
  moreover have "length row < 7 \<longrightarrow>
      extract_income_row row =
        (if length row < 5 \<or> (length row = 5 \<and> income_numeric row) \<or> income_split row
         then Inl IndexError else Inr row)"
    by (auto simp: extract_income_row_cases income_split_def)
  moreover have "row \<in> set data \<and> extract_income_row row = Inl IndexError \<longrightarrow>
        extract_income data = Inl IndexError"
    using extract_income_failing_row by blast
  ultimately show ?thesis by blast
qed

theorem short_rows_witness:
  "extract_income_row [''Jane Roe'', ''jr@foo.com'', ''01/02/1990'', ''40'', ''n/a''] =
     Inr [''Jane Roe'', ''jr@foo.com'', ''01/02/1990'', ''40'', ''n/a'']
   \<and> extract_income_body [''Jane Roe'', ''jr@foo.com'', ''01/02/1990'', ''40'', ''$900''] =
     ([''Jane Roe'', ''jr@foo.com'', ''01/02/1990'', ''40'', ''$900''], Some IndexError)
   \<and> extract_income_body [''Jane Roe'', ''jr@foo.com'', ''01/02/1990'', ''40'', ''$1'', ''200''] =
     ([''Jane Roe'', ''jr@foo.com'', ''01/02/1990'', ''40'', ''$1200'', ''200''], Some IndexError)
   \<and> extract_income [[''Name'', ''Email'', ''Date of Birth'', ''Age'', ''Income''],
        [''Jane Roe'', ''jr@foo.com'', ''01/02/1990'', ''40'', ''$900'']] = Inl IndexError"
proof -
  let ?words = "[''Jane Roe'', ''jr@foo.com'', ''01/02/1990'', ''40'', ''n/a'']"
  let ?amount = "[''Jane Roe'', ''jr@foo.com'', ''01/02/1990'', ''40'', ''$900'']"
  let ?split = "[''Jane Roe'', ''jr@foo.com'', ''01/02/1990'', ''40'', ''$1'', ''200'']"
  let ?header = "[''Name'', ''Email'', ''Date of Birth'', ''Age'', ''Income'']"
  have words: "\<not> income_numeric ?words"
    by (simp add: income_numeric_def py_string_defs)
  have amount: "income_numeric ?amount"
    by (simp add: income_numeric_def py_string_defs)
  have split: "income_split ?split"
    by (simp add: income_split_def income_numeric_def fragment_numeric_def py_string_defs)
  have "extract_income_row ?words = Inr ?words"
    using short_rows [of ?words "[]"] words by (simp add: income_split_def)
  moreover have "extract_income_body ?amount = (?amount, Some IndexError)"
    using short_rows [of ?amount "[]"] amount by simp
  moreover have "extract_income_body ?split = (?split[4 := ?split ! 4 @ ?split ! 5], Some IndexError)"
    using short_rows [of ?split "[]"] split by simp
  moreover have fails: "extract_income_row ?amount = Inl IndexError"
    using short_rows [of ?amount "[]"] amount by simp
  moreover have "extract_income [?header, ?amount] = Inl IndexError"
    using short_rows [of ?amount "[?header, ?amount]"] fails by simp
  ultimately show ?thesis by simp
qed

text \<open>
  C4, as the specification words it, fails: a row of three fields is not left unchanged,
  the pass fails on it with an index error, and so does the whole pass on a file whose
  second line is empty; and on a row of six fields that matches the pattern the pass
  fails after it has changed field 4.
\<close>

theorem short_rows_counterexample:
  "extract_income_body [''a'', ''b'', ''c''] = ([''a'', ''b'', ''c''], Some IndexError)
   \<and> extract_income (split_rows
        [''Name,Email,Date of Birth,Age,Income,Country'' @ [CHR 0x0A], [CHR 0x0A]])
       = Inl IndexError
   \<and> extract_income_body [''a'', ''b'', ''c'', ''d'', ''$1'', ''200'']
       = ([''a'', ''b'', ''c'', ''d'', ''$1200'', ''200''], Some IndexError)"
  by (simp add: split_rows_def extract_income_row_def extract_income_body_def py_get_def
      py_string_defs)

text \<open>
  C5 (amended). The pass does not make the rows as long as the header row. Whenever it
  does not fail, every row of the result, the header row included, has one field less than
  before when it matched the numeric pattern and as many fields as before otherwise. So
  the data rows have the field count of the header row after the pass exactly when, before
  the pass, every data row had its field count less one for a match equal to that of the
  header row.
\<close>

theorem field_counts_after_repair:
  "(extract_income data = Inr data' \<longrightarrow>
      map length data' =
        map (\<lambda>row. if income_split row then length row - 1 else length row) data)
   \<and> (extract_income (header # rows) = Inr (header' # rows') \<longrightarrow>
        ((\<forall>row' \<in> set rows'. length row' = length header') \<longleftrightarrow>
         (\<forall>row \<in> set rows.
            (if income_split row then length row - 1 else length row) =
            (if income_split header then length header - 1 else length header))))"
proof -
  have a: "extract_income data = Inr data' \<longrightarrow>
      map length data' =
        map (\<lambda>row. if income_split row then length row - 1 else length row) data"
    by (auto dest!: extract_income_repaired simp: length_repaired_row)
  have b: "extract_income (header # rows) = Inr (header' # rows') \<longrightarrow>
        ((\<forall>row' \<in> set rows'. length row' = length header') \<longleftrightarrow>
         (\<forall>row \<in> set rows.
            (if income_split row then length row - 1 else length row) =
            (if income_split header then length header - 1 else length header)))"
  proof
    assume "extract_income (header # rows) = Inr (header' # rows')"
    then have "header' # rows' = map repaired_row (header # rows)"
      by (rule extract_income_repaired)
    then have h: "header' = repaired_row header" and r: "rows' = map repaired_row rows"
      by simp_all
    show "(\<forall>row' \<in> set rows'. length row' = length header') \<longleftrightarrow>
         (\<forall>row \<in> set rows.
            (if income_split row then length row - 1 else length row) =
            (if income_split header then length header - 1 else length header))"
      unfolding h r by (simp add: length_repaired_row)
  qed
  from a b show ?thesis by blast
qed

theorem field_counts_after_repair_witness:
  "map length
     [[''Name'', ''Email'', ''Date of Birth'', ''Age'', ''Income'', ''Country''],
      [''John Doe'', ''j@@gmail.com'', ''04/03/2020'', ''35'', ''$1200'', ''USA'']]
   = [6, 6]"
proof -
  let ?header = "[''Name'', ''Email'', ''Date of Birth'', ''Age'', ''Income'', ''Country'']"
  let ?row = "[''John Doe'', ''j@@gmail.com'', ''04/03/2020'', ''35'', ''$1'', ''200'', ''USA'']"
  let ?row' = "[''John Doe'', ''j@@gmail.com'', ''04/03/2020'', ''35'', ''$1200'', ''USA'']"
  have run: "extract_income [?header, ?row] = Inr [?header, ?row']"
    by (simp add: extract_income_row_def extract_income_body_def py_get_def py_del_def
        py_string_defs)
  have header: "\<not> income_split ?header"
    by (simp add: income_split_def income_numeric_def fragment_numeric_def py_string_defs)
  have row: "income_split ?row"
    by (simp add: income_split_def income_numeric_def fragment_numeric_def py_string_defs)
  show ?thesis
    using field_counts_after_repair [of "[?header, ?row]" "[?header, ?row']"] run header row
    by simp
qed

text \<open>
  C5, as the specification words it, fails: an income written \<^verbatim>\<open>$1,200,000\<close> is cut into
  three fields, the pass joins the first two only, and the data row is left with 7 fields
  under a header row of 6.
\<close>

theorem field_counts_after_repair_counterexample:
  "extract_income (split_rows
     [''Name,Email,Date of Birth,Age,Income,Country'' @ [CHR 0x0A],
      ''John Doe,j@@gmail.com,04/03/2020,35,$1,200,000,USA'' @ [CHR 0x0A]])
   = Inr [[''Name'', ''Email'', ''Date of Birth'', ''Age'', ''Income'', ''Country'' @ [CHR 0x0A]],
          [''John Doe'', ''j@@gmail.com'', ''04/03/2020'', ''35'', ''$1200'', ''000'',
           ''USA'' @ [CHR 0x0A]]]
   \<and> length [''John Doe'', ''j@@gmail.com'', ''04/03/2020'', ''35'', ''$1200'', ''000'',
           ''USA'' @ [CHR 0x0A]]
       \<noteq> length [''Name'', ''Email'', ''Date of Birth'', ''Age'', ''Income'',
           ''Country'' @ [CHR 0x0A]]"
  by (simp add: split_rows_def extract_income_row_def extract_income_body_def py_get_def
      py_del_def py_string_defs)

section \<open>The income, country and age normalizers\<close>

lemma py_replace_char_empty: "py_replace [c] [] s = filter (\<lambda>x. x \<noteq> c) s"
  by (induction s) (auto simp: py_replace.simps(2))

lemma py_in_char: "py_in [c] s = (c \<in> set s)"
  by (induction s) auto

lemma income_value_steps:
  "(case map_of [(''.00'', ''unknown'')]
      (if \<not> py_in ''.'' (py_replace ''$'' [] v) then py_replace ''$'' [] v @ ''.00''
       else py_replace ''$'' [] v) of
      None \<Rightarrow>
       (if \<not> py_in ''.'' (py_replace ''$'' [] v) then py_replace ''$'' [] v @ ''.00''
        else py_replace ''$'' [] v)
    | Some r \<Rightarrow> r) = income_value v"
proof -
  define s where "s = filter (\<lambda>c. c \<noteq> CHR ''$'') v"
  have "(case map_of [(''.00'', ''unknown'')] (if \<not> py_in ''.'' s then s @ ''.00'' else s) of
      None \<Rightarrow> (if \<not> py_in ''.'' s then s @ ''.00'' else s) | Some r \<Rightarrow> r)
    = (if s = [] \<or> s = ''.00'' then ''unknown''
       else if CHR ''.'' \<in> set s then s else s @ ''.00'')"
    by (auto simp: py_in_char)
  then show ?thesis
    by (simp only: py_replace_char_empty income_value_def Let_def s_def)
qed

lemma clean_income_column_map: "clean_income_column column = map income_value column"
  unfolding clean_income_column_def series_replace_def series_apply_def str_replace_def
    map_map comp_def
  by (simp only: income_value_steps)

lemma country_value_steps:
  "(case map_of country_usa_map2 (case map_of country_usa_map (py_replace [CHR 0x0A] [] v) of
        None \<Rightarrow> py_replace [CHR 0x0A] [] v | Some r \<Rightarrow> r) of
      None \<Rightarrow> (case map_of country_usa_map (py_replace [CHR 0x0A] [] v) of
        None \<Rightarrow> py_replace [CHR 0x0A] [] v | Some r \<Rightarrow> r)
    | Some r \<Rightarrow> r) = country_value v"
  by (simp add: py_replace_char_empty country_value_def Let_def country_usa_map_def
      country_usa_map2_def usa_aliases_def)

lemma clean_country_column_map: "clean_country_column column = map country_value column"
  unfolding clean_country_column_def series_replace_def str_replace_def map_map comp_def
  by (simp only: country_value_steps)

lemma clean_age_column_map:
  "clean_age_column column = map (\<lambda>v. if v = [] then ''unknown'' else v) column"
  by (simp add: clean_age_column_def series_replace_def)

lemma country_value_idem: "country_value (country_value v) = country_value v"
  by (simp add: country_value_def Let_def usa_aliases_def)

lemma income_value_idem:
  "income_value v \<noteq> ''unknown'' \<Longrightarrow> income_value (income_value v) = income_value v"
  by (auto simp: income_value_def Let_def split: if_splits)

lemma income_value_unknown: "income_value ''unknown'' = ''unknown.00''"
  by (simp add: income_value_def)

text \<open>
  C6 (amended). Income normalization: for every income value, every dollar sign is taken
  out, whether it is a prefix or not; if the value so stripped has no decimal point,
  \<^verbatim>\<open>.00\<close> is put at its end; and if the result is exactly \<^verbatim>\<open>.00\<close> (the stripped value
  was empty, or was \<^verbatim>\<open>.00\<close>), it is replaced with the sentinel \<^verbatim>\<open>unknown\<close>. So for all
  values made of a dollar sign and at least one more character, with no other dollar sign
  and no decimal point, the output is the stripped value followed by \<^verbatim>\<open>.00\<close>.
\<close>

theorem income_normalizer:
  "clean_income_column column = map income_value column
   \<and> (CHR ''$'' \<notin> set s \<and> CHR ''.'' \<notin> set s \<and> s \<noteq> [] \<longrightarrow>
        clean_income_column [CHR ''$'' # s] = [s @ ''.00''])
   \<and> (filter (\<lambda>c. c \<noteq> CHR ''$'') v = [] \<longrightarrow> clean_income_column [v] = [''unknown''])
   \<and> CHR ''$'' \<notin> set (income_value v)"
proof -
  have "CHR ''$'' \<notin> set s \<and> CHR ''.'' \<notin> set s \<and> s \<noteq> [] \<longrightarrow>
        clean_income_column [CHR ''$'' # s] = [s @ ''.00'']"
  proof
    assume s: "CHR ''$'' \<notin> set s \<and> CHR ''.'' \<notin> set s \<and> s \<noteq> []"
    then have "filter (\<lambda>c. c \<noteq> CHR ''$'') s = s"
      by (auto simp: filter_id_conv)
    with s show "clean_income_column [CHR ''$'' # s] = [s @ ''.00'']"
      by (auto simp: clean_income_column_map income_value_def)
  qed
  moreover have "filter (\<lambda>c. c \<noteq> CHR ''$'') v = [] \<longrightarrow> clean_income_column [v] = [''unknown'']"
    by (simp add: clean_income_column_map income_value_def)
  moreover have "CHR ''$'' \<notin> set (income_value v)"
    by (simp add: income_value_def Let_def)
  ultimately show ?thesis
    using clean_income_column_map by blast
qed

theorem income_normalizer_witness:
  "clean_income_column [''$1200'', [], ''5.5'', ''$''] = [''1200.00'', ''unknown'', ''5.5'', ''unknown'']
   \<and> clean_income_column [''$1200''] = [''1200.00'']"
proof -
  have "clean_income_column [''$1200'', [], ''5.5'', ''$''] =
      map income_value [''$1200'', [], ''5.5'', ''$'']"
    using income_normalizer [of "[''$1200'', [], ''5.5'', ''$'']"] by blast
  moreover have "clean_income_column [CHR ''$'' # ''1200''] = [''1200'' @ ''.00'']"
    using income_normalizer [of "[]" "''1200''"] by simp
  ultimately show ?thesis by (simp add: income_value_def)
qed

text \<open>
  C6, as the specification words it, fails: the value \<^verbatim>\<open>1$2\<close> has no dollar sign as a
  prefix and no decimal point, so the specification's normalizer gives \<^verbatim>\<open>1$2.00\<close>; the
  routine takes the dollar sign out of the middle. And the value \<^verbatim>\<open>$\<close> has the prefix and
  no decimal point, but its output is the sentinel, not its stripped value followed by
  \<^verbatim>\<open>.00\<close>.
\<close>

theorem income_normalizer_counterexample:
  "clean_income_column [''1$2''] = [''12.00''] \<and> spec_clean_income ''1$2'' = ''1$2.00''
   \<and> clean_income_column [''$''] = [''unknown'']"
  by (simp add: clean_income_column_def series_replace_def series_apply_def str_replace_def
      py_replace.simps(2) spec_clean_income_def strip_leading_dollar_def)

text \<open>
  C8 (amended). Country normalization: every country value first loses its line feeds.
  If it is then one of the eight aliases, or one of the eight aliases or \<^verbatim>\<open>USA\<close> itself
  followed by one carriage return, the output is exactly \<^verbatim>\<open>USA\<close>; in particular every
  value that matches an alias after a trailing carriage return is trimmed and the line
  feeds are stripped comes out as \<^verbatim>\<open>USA\<close>. Every other value comes out with its line
  feeds taken out and nothing else changed: a carriage return stays.
\<close>

theorem country_normalizer:
  "clean_country_column column = map country_value column
   \<and> (matches_usa_alias v \<longrightarrow> country_value v = ''USA'')
   \<and> (country_value v \<noteq> ''USA'' \<longrightarrow> country_value v = filter (\<lambda>c. c \<noteq> CHR 0x0A) v)"
proof -
  have "matches_usa_alias v \<longrightarrow> country_value v = ''USA''"
  proof
    assume m: "matches_usa_alias v"
    define w where "w = filter (\<lambda>c. c \<noteq> CHR 0x0A) v"
    have cv: "country_value v =
        (if w \<in> set usa_aliases \<or> w \<in> set (map (\<lambda>a. a @ [CHR 0x0D]) (''USA'' # usa_aliases))
         then ''USA'' else w)"
      unfolding country_value_def Let_def w_def by (rule refl)
    from m have tm: "trim_trailing_cr w \<in> set usa_aliases"
      unfolding matches_usa_alias_def w_def .
    show "country_value v = ''USA''"
    proof (cases "w \<noteq> [] \<and> last w = CHR 0x0D")
      case True
      with tm have "butlast w \<in> set usa_aliases"
        unfolding trim_trailing_cr_def by simp
      moreover from True have "butlast w @ [CHR 0x0D] = w"
        using append_butlast_last_id [of w] by simp
      ultimately have "w \<in> (\<lambda>a. a @ [CHR 0x0D]) ` set usa_aliases"
        by (metis image_eqI)
      then show ?thesis
        unfolding cv by simp
    next
      case False
      with tm have "w \<in> set usa_aliases"
        unfolding trim_trailing_cr_def by (simp split: if_splits)
      then show ?thesis
        unfolding cv by simp
    qed
  qed
  moreover have "country_value v \<noteq> ''USA'' \<longrightarrow> country_value v = filter (\<lambda>c. c \<noteq> CHR 0x0A) v"
    by (simp add: country_value_def Let_def)
  ultimately show ?thesis
    using clean_country_column_map by blast
qed

theorem country_normalizer_witness:
  "clean_country_column [''us'' @ [CHR 0x0D, CHR 0x0A], ''Canada'' @ [CHR 0x0A]] = [''USA'', ''Canada'']"
proof -
  have m: "matches_usa_alias (''us'' @ [CHR 0x0D, CHR 0x0A])"
    by (simp add: matches_usa_alias_def trim_trailing_cr_def usa_aliases_def)
  have "country_value (''us'' @ [CHR 0x0D, CHR 0x0A]) = ''USA''"
    using country_normalizer [of _ "''us'' @ [CHR 0x0D, CHR 0x0A]"] m by blast
  moreover have "country_value (''Canada'' @ [CHR 0x0A]) = ''Canada''"
    using country_normalizer [of _ "''Canada'' @ [CHR 0x0A]"]
    by (simp add: country_value_def usa_aliases_def)
  moreover have "clean_country_column [''us'' @ [CHR 0x0D, CHR 0x0A], ''Canada'' @ [CHR 0x0A]]
      = map country_value [''us'' @ [CHR 0x0D, CHR 0x0A], ''Canada'' @ [CHR 0x0A]]"
    using country_normalizer [of "[''us'' @ [CHR 0x0D, CHR 0x0A], ''Canada'' @ [CHR 0x0A]]"]
    by blast
  ultimately show ?thesis by simp
qed

text \<open>
  C8, as the specification words it, fails. The value \<^verbatim>\<open>USA\<close> followed by a carriage return
  matches none of the eight aliases, and it does not pass through unchanged: the second
  table of the routine turns it into \<^verbatim>\<open>USA\<close>. And "unchanged" cannot be read as "with the
  carriage return trimmed" either: \<^verbatim>\<open>Canada\<close> followed by a carriage return matches no
  alias and keeps its carriage return.
\<close>

theorem country_normalizer_counterexample:
  "\<not> matches_usa_alias (''USA'' @ [CHR 0x0D])
   \<and> clean_country_column [''USA'' @ [CHR 0x0D]] = [''USA'']
   \<and> \<not> matches_usa_alias (''Canada'' @ [CHR 0x0D])
   \<and> clean_country_column [''Canada'' @ [CHR 0x0D]] = [''Canada'' @ [CHR 0x0D]]"
  by (simp add: matches_usa_alias_def trim_trailing_cr_def usa_aliases_def
      clean_country_column_def series_replace_def str_replace_def py_replace.simps(2)
      country_usa_map_def country_usa_map2_def)

text \<open>
  C2 (amended). Idempotence: applying the Country normalizer or the Age normalizer a second
  time to a column that the same normalizer has cleaned leaves every value unchanged, for
  every input column. Applying the Income normalizer a second time leaves every value
  unchanged exactly when the cleaned column holds no \<^verbatim>\<open>unknown\<close>: a second run turns the
  sentinel into \<^verbatim>\<open>unknown.00\<close>.
\<close>

theorem normalizers_rerun:
  "clean_country_column (clean_country_column column) = clean_country_column column
   \<and> clean_age_column (clean_age_column column) = clean_age_column column
   \<and> (''unknown'' \<notin> set (clean_income_column column) \<longrightarrow>
        clean_income_column (clean_income_column column) = clean_income_column column)
   \<and> (''unknown'' \<in> set (clean_income_column column) \<longrightarrow>
        clean_income_column (clean_income_column column) \<noteq> clean_income_column column)"
proof -
  have country: "clean_country_column (clean_country_column column) = clean_country_column column"
    by (simp add: clean_country_column_map country_value_idem)
  have age: "clean_age_column (clean_age_column column) = clean_age_column column"
    by (simp add: clean_age_column_map)
  have same: "''unknown'' \<notin> set (clean_income_column column) \<longrightarrow>
        clean_income_column (clean_income_column column) = clean_income_column column"
  proof
    assume "''unknown'' \<notin> set (clean_income_column column)"
    then have "\<forall>v \<in> set column. income_value v \<noteq> ''unknown''"
      by (auto simp: clean_income_column_map image_iff)
    then have "\<forall>v \<in> set column. income_value (income_value v) = income_value v"
      by (simp add: income_value_idem)
    then show "clean_income_column (clean_income_column column) = clean_income_column column"
      by (simp add: clean_income_column_map)
  qed
  have differs: "''unknown'' \<in> set (clean_income_column column) \<longrightarrow>
        clean_income_column (clean_income_column column) \<noteq> clean_income_column column"
  proof
    assume "''unknown'' \<in> set (clean_income_column column)"
    then obtain v where v: "v \<in> set column" "income_value v = ''unknown''"
      by (auto simp: clean_income_column_map)
    then have "income_value (income_value v) \<noteq> income_value v"
      by (simp add: income_value_unknown)
    with v(1) show "clean_income_column (clean_income_column column) \<noteq> clean_income_column column"
      by (auto simp: clean_income_column_map)
  qed
  from country age same differs show ?thesis by blast
qed

theorem normalizers_rerun_witness:
  "clean_income_column (clean_income_column [''$1200'', ''5.5'']) = [''1200.00'', ''5.5'']
   \<and> clean_income_column (clean_income_column [''$1200'', []]) \<noteq> [''1200.00'', ''unknown'']"
proof -
  have first: "clean_income_column [''$1200'', ''5.5''] = [''1200.00'', ''5.5'']"
    by (simp add: clean_income_column_map income_value_def)
  have second: "clean_income_column [''$1200'', []] = [''1200.00'', ''unknown'']"
    by (simp add: clean_income_column_map income_value_def)
  have "clean_income_column (clean_income_column [''$1200'', ''5.5''])
      = clean_income_column [''$1200'', ''5.5'']"
    using normalizers_rerun [of "[''$1200'', ''5.5'']"] first by simp
  moreover have "clean_income_column (clean_income_column [''$1200'', []])
      \<noteq> clean_income_column [''$1200'', []]"
    using normalizers_rerun [of "[''$1200'', []]"] second by simp
  ultimately show ?thesis using first second by simp
qed

text \<open>
  C2, as the specification words it, fails for the Income normalizer: an empty income is
  cleaned to \<^verbatim>\<open>unknown\<close>, and a second run makes \<^verbatim>\<open>unknown.00\<close> of it.
\<close>

theorem normalizers_rerun_counterexample:
  "clean_income_column [[]] = [''unknown'']
   \<and> clean_income_column (clean_income_column [[]]) = [''unknown.00'']"
  by (simp add: clean_income_column_def series_replace_def series_apply_def str_replace_def
      py_replace.simps(2))

section \<open>The cleaning steps on the table\<close>

lemma get_set_column:
  "get_column data name = Inr old \<Longrightarrow> get_column (set_column name column data) name = Inr column"
  by (induction data) (auto simp: get_column_def split: option.splits if_splits)

lemma set_set_column:
  "set_column name c2 (set_column name c1 data) = set_column name c2 data"
  by (induction data) auto

lemma assign_assign:
  "and_then (assign_column name f data) (assign_column name g)
     = assign_column name (\<lambda>column. and_then (f column) g) data"
  by (auto simp: and_then_def assign_column_def get_set_column set_set_column
      split: sum.splits)

text \<open>
  The statements of a step assign to one column one after the other; together they
  assign the step's column function to it.
\<close>

lemma clean_income_assign:
  "clean_income data = assign_column ''Income'' (\<lambda>column. Inr (clean_income_column column)) data"
proof -
  have "clean_income data =
      and_then
        (and_then (assign_column ''Income'' (\<lambda>column. Inr (str_replace ''$'' [] column)) data)
          (assign_column ''Income''
            (\<lambda>column. Inr (series_apply (\<lambda>x. if \<not> py_in ''.'' x then x @ ''.00'' else x) column))))
        (assign_column ''Income'' (\<lambda>column. Inr (series_replace [(''.00'', ''unknown'')] column)))"
    by (simp add: clean_income_def and_then_def split: sum.splits)
  then show ?thesis
    unfolding assign_assign by (simp add: clean_income_column_def and_then_def)
qed

lemma clean_country_assign:
  "clean_country data =
     assign_column ''Country'' (\<lambda>column. Inr (clean_country_column column))
       (rename_columns
          [(''Country'' @ [CHR 0x0A], ''Country''),
           (''Country'' @ [CHR 0x0D, CHR 0x0A], ''Country'')] data)"
proof -
  define renamed where "renamed = rename_columns
          [(''Country'' @ [CHR 0x0A], ''Country''),
           (''Country'' @ [CHR 0x0D, CHR 0x0A], ''Country'')] data"
  have "clean_country data =
      and_then
        (and_then
          (assign_column ''Country'' (\<lambda>column. Inr (str_replace [CHR 0x0A] [] column)) renamed)
          (assign_column ''Country'' (\<lambda>column. Inr (series_replace country_usa_map column))))
        (assign_column ''Country'' (\<lambda>column. Inr (series_replace country_usa_map2 column)))"
    by (simp add: clean_country_def Let_def and_then_def renamed_def split: sum.splits)
  then show ?thesis
    unfolding assign_assign by (simp add: clean_country_column_def and_then_def renamed_def)
qed

lemma clean_email_assign:
  "clean_email engine data = assign_column ''Email'' (clean_email_column engine) data"
proof -
  have "clean_email engine data =
      and_then
        (and_then (assign_column ''Email'' (\<lambda>column. Inr (str_replace ''@@'' ''@'' column)) data)
          (assign_column ''Email'' (assume_subdomains engine)))
        (assign_column ''Email'' (\<lambda>column. Inr (series_replace [(''.com'', ''unknown'')] column)))"
    by (simp add: clean_email_def and_then_def split: sum.splits)
  moreover have "(\<lambda>column. and_then (and_then (Inr (str_replace ''@@'' ''@'' column))
        (assume_subdomains engine)) (\<lambda>column. Inr (series_replace [(''.com'', ''unknown'')] column)))
      = clean_email_column engine"
    by (auto simp: clean_email_column_def and_then_def split: sum.splits)
  ultimately show ?thesis
    by (simp add: assign_assign)
qed

lemma clean_age_assign:
  "clean_age data = assign_column ''Age'' (\<lambda>column. Inr (clean_age_column column)) data"
  by (simp add: clean_age_def clean_age_column_def)

lemma set_column_same_outside:
  "get_column data name = Inr old \<Longrightarrow> same_outside name data (set_column name column data)"
proof (induction data)
  case Nil
  then show ?case by (simp add: get_column_def)
next
  case (Cons p data)
  obtain label c where p: "p = (label, c)" by (cases p)
  show ?case
  proof (cases "label = name")
    case True
    with p show ?thesis by (auto simp: same_outside_def nth_Cons split: nat.splits)
  next
    case False
    with Cons.prems p have "get_column data name = Inr old"
      by (simp add: get_column_def)
    then have "same_outside name data (set_column name column data)"
      by (rule Cons.IH)
    with False p show ?thesis
      by (auto simp: same_outside_def nth_Cons split: nat.splits)
  qed
qed

lemma assign_column_same_outside:
  "assign_column name f data = Inr data' \<Longrightarrow> same_outside name data data'"
  by (auto simp: assign_column_def set_column_same_outside split: sum.splits)

lemma rename_columns_frame:
  "length (rename_columns mapping data) = length data
   \<and> (\<forall>i < length data.
        snd (rename_columns mapping data ! i) = snd (data ! i)
        \<and> (fst (data ! i) \<notin> fst ` set mapping \<longrightarrow> rename_columns mapping data ! i = data ! i)
        \<and> (fst (data ! i) \<in> fst ` set mapping \<longrightarrow>
             fst (rename_columns mapping data ! i) \<in> snd ` set mapping))"
proof -
  have elem: "\<And>i. i < length data \<Longrightarrow>
      rename_columns mapping data ! i =
        (case map_of mapping (fst (data ! i)) of None \<Rightarrow> fst (data ! i) | Some l' \<Rightarrow> l',
         snd (data ! i))"
    by (simp add: rename_columns_def split_beta)
  have keep: "\<And>l. l \<notin> fst ` set mapping \<Longrightarrow> map_of mapping l = None"
    by (simp add: map_of_eq_None_iff)
  have change: "\<And>l. l \<in> fst ` set mapping \<Longrightarrow>
      (case map_of mapping l of None \<Rightarrow> l | Some l' \<Rightarrow> l') \<in> snd ` set mapping"
  proof -
    fix l
    assume "l \<in> fst ` set mapping"
    then have "map_of mapping l \<noteq> None"
      by (simp add: map_of_eq_None_iff)
    then obtain l' where l': "map_of mapping l = Some l'"
      by blast
    then have "(l, l') \<in> set mapping"
      by (rule map_of_SomeD)
    then have "l' \<in> snd ` set mapping"
      by force
    with l' show "(case map_of mapping l of None \<Rightarrow> l | Some l' \<Rightarrow> l') \<in> snd ` set mapping"
      by simp
  qed
  have "length (rename_columns mapping data) = length data"
    by (simp add: rename_columns_def)
  moreover have "\<forall>i < length data.
        snd (rename_columns mapping data ! i) = snd (data ! i)
        \<and> (fst (data ! i) \<notin> fst ` set mapping \<longrightarrow> rename_columns mapping data ! i = data ! i)
        \<and> (fst (data ! i) \<in> fst ` set mapping \<longrightarrow>
             fst (rename_columns mapping data ! i) \<in> snd ` set mapping)"
    using keep change by (simp add: elem)
  ultimately show ?thesis by blast
qed

text \<open>
  C10. Every cleaning step of the routine that succeeds leaves the table with the same
  columns in the same places, and changes only the column it cleans: after the Income,
  Name, Email, Date of Birth and Age steps every column has its label of before and every
  column with another label is what it was. The Country step gives the label \<^verbatim>\<open>Country\<close>
  to the columns labelled \<^verbatim>\<open>Country\<close> with a line end after it, and every column that is
  not labelled \<^verbatim>\<open>Country\<close>, with or without a line end, keeps its label and its values.
\<close>

theorem cleaning_steps_frame:
  "(clean_income data = Inr data' \<longrightarrow> same_outside ''Income'' data data')
   \<and> (clean_name title data = Inr data' \<longrightarrow> same_outside ''Name'' data data')
   \<and> (clean_email engine data = Inr data' \<longrightarrow> same_outside ''Email'' data data')
   \<and> (clean_date parse strftime data = Inr data' \<longrightarrow> same_outside ''Date of Birth'' data data')
   \<and> (clean_age data = Inr data' \<longrightarrow> same_outside ''Age'' data data')
   \<and> (clean_country data = Inr data' \<longrightarrow>
        length data' = length data \<and>
        (\<forall>i < length data.
           if fst (data ! i) \<in> set country_labels then fst (data' ! i) = ''Country''
           else data' ! i = data ! i))"
proof -
  have income: "clean_income data = Inr data' \<longrightarrow> same_outside ''Income'' data data'"
    by (simp add: clean_income_assign assign_column_same_outside)
  have name: "clean_name title data = Inr data' \<longrightarrow> same_outside ''Name'' data data'"
    by (simp add: clean_name_def assign_column_same_outside)
  have email: "clean_email engine data = Inr data' \<longrightarrow> same_outside ''Email'' data data'"
    by (simp add: clean_email_assign assign_column_same_outside)
  have date: "clean_date parse strftime data = Inr data' \<longrightarrow>
      same_outside ''Date of Birth'' data data'"
    by (simp add: clean_date_def assign_column_same_outside)
  have age: "clean_age data = Inr data' \<longrightarrow> same_outside ''Age'' data data'"
    by (simp add: clean_age_assign assign_column_same_outside)
  have country: "clean_country data = Inr data' \<longrightarrow>
        length data' = length data \<and>
        (\<forall>i < length data.
           if fst (data ! i) \<in> set country_labels then fst (data' ! i) = ''Country''
           else data' ! i = data ! i)"
  proof
    assume run: "clean_country data = Inr data'"
    define mapping where "mapping =
      [(''Country'' @ [CHR 0x0A], ''Country''), (''Country'' @ [CHR 0x0D, CHR 0x0A], ''Country'')]"
    define renamed where "renamed = rename_columns mapping data"
    from run have "same_outside ''Country'' renamed data'"
      unfolding clean_country_assign renamed_def mapping_def
      by (rule assign_column_same_outside)
    then have len: "length data' = length renamed"
      and same: "\<And>i. i < length renamed \<Longrightarrow> fst (data' ! i) = fst (renamed ! i)
          \<and> (fst (renamed ! i) \<noteq> ''Country'' \<longrightarrow> data' ! i = renamed ! i)"
      by (simp_all add: same_outside_def)
    have ren: "length renamed = length data"
      and keep: "\<And>i. i < length data \<Longrightarrow> fst (data ! i) \<notin> fst ` set mapping \<Longrightarrow>
          renamed ! i = data ! i"
      and change: "\<And>i. i < length data \<Longrightarrow> fst (data ! i) \<in> fst ` set mapping \<Longrightarrow>
          fst (renamed ! i) \<in> snd ` set mapping"
      using rename_columns_frame [of mapping data] by (simp_all add: renamed_def)
    have "\<forall>i < length data.
           if fst (data ! i) \<in> set country_labels then fst (data' ! i) = ''Country''
           else data' ! i = data ! i"
    proof (intro allI impI)
      fix i
      assume i: "i < length data"
      show "if fst (data ! i) \<in> set country_labels then fst (data' ! i) = ''Country''
           else data' ! i = data ! i"
      proof (cases "fst (data ! i) \<in> fst ` set mapping")
        case True
        with change [OF i] have "fst (renamed ! i) = ''Country''"
          by (simp add: mapping_def)
        with same [of i] i ren have "fst (data' ! i) = ''Country''"
          by simp
        moreover from True have "fst (data ! i) \<in> set country_labels"
          by (auto simp: mapping_def country_labels_def)
        ultimately show ?thesis by simp
      next
        case False
        with keep [OF i] have eq: "renamed ! i = data ! i" by simp
        show ?thesis
        proof (cases "fst (data ! i) = ''Country''")
          case True
          with same [of i] i ren eq show ?thesis
            by (simp add: country_labels_def)
        next
          case other: False
          with False have "fst (data ! i) \<notin> set country_labels"
            by (auto simp: mapping_def country_labels_def)
          moreover from other same [of i] i ren eq have "data' ! i = data ! i"
            by simp
          ultimately show ?thesis by simp
        qed
      qed
    qed
    with len ren show "length data' = length data \<and>
        (\<forall>i < length data.
           if fst (data ! i) \<in> set country_labels then fst (data' ! i) = ''Country''
           else data' ! i = data ! i)"
      by simp
  qed
  from income name email date age country show ?thesis by blast
qed

theorem cleaning_steps_frame_witness:
  "let data =
     [(''Name'', [''john doe'']), (''Email'', [''j@@gmail'']),
      (''Date of Birth'', [''04/03/2020'']), (''Age'', [[]]), (''Income'', [''$1200'']),
      (''Country'' @ [CHR 0x0A], [''us'' @ [CHR 0x0A]])]
   in (\<exists>data'. clean_income data = Inr data' \<and> same_outside ''Income'' data data')
    \<and> (\<exists>data'. clean_name ascii_title data = Inr data' \<and> same_outside ''Name'' data data')
    \<and> (\<exists>data'. clean_email plain_engine data = Inr data' \<and> same_outside ''Email'' data data')
    \<and> (\<exists>data'. clean_date (\<lambda>date. Inl ValueError) (\<lambda>parsed_date :: unit. Inr []) data = Inr data'
          \<and> same_outside ''Date of Birth'' data data')
    \<and> (\<exists>data'. clean_age data = Inr data' \<and> same_outside ''Age'' data data')
    \<and> (\<exists>data'. clean_country data = Inr data' \<and> length data' = length data
          \<and> fst (data' ! 5) = ''Country'' \<and> data' ! 4 = data ! 4)"
proof -
  let ?data = "[(''Name'', [''john doe'']), (''Email'', [''j@@gmail'']),
      (''Date of Birth'', [''04/03/2020'']), (''Age'', [[]]), (''Income'', [''$1200'']),
      (''Country'' @ [CHR 0x0A], [''us'' @ [CHR 0x0A]])]"
  let ?parse = "\<lambda>date :: string. Inl ValueError :: py_error + unit"
  let ?strftime = "\<lambda>parsed_date :: unit. Inr [] :: py_error + string"
  have income: "clean_income ?data = Inr (set_column ''Income'' [''1200.00''] ?data)"
    by code_simp
  have name: "clean_name ascii_title ?data = Inr (set_column ''Name'' [''John Doe''] ?data)"
    by code_simp
  have email: "clean_email plain_engine ?data = Inr (set_column ''Email'' [''j@gmail.com''] ?data)"
    by code_simp
  have date: "clean_date ?parse ?strftime ?data
      = Inr (set_column ''Date of Birth'' [''unknown''] ?data)"
    by code_simp
  have age: "clean_age ?data = Inr (set_column ''Age'' [''unknown''] ?data)"
    by code_simp
  have country: "clean_country ?data = Inr (butlast ?data @ [(''Country'', [''USA''])])"
    by code_simp
  have "same_outside ''Income'' ?data (set_column ''Income'' [''1200.00''] ?data)"
    using cleaning_steps_frame [of ?data "set_column ''Income'' [''1200.00''] ?data"] income
    by blast
  moreover have "same_outside ''Name'' ?data (set_column ''Name'' [''John Doe''] ?data)"
    using cleaning_steps_frame [of ?data "set_column ''Name'' [''John Doe''] ?data" ascii_title]
      name
    by blast
  moreover have "same_outside ''Email'' ?data (set_column ''Email'' [''j@gmail.com''] ?data)"
    using cleaning_steps_frame
      [of ?data "set_column ''Email'' [''j@gmail.com''] ?data" _ plain_engine] email
    by blast
  moreover have "same_outside ''Date of Birth'' ?data
      (set_column ''Date of Birth'' [''unknown''] ?data)"
    using cleaning_steps_frame
      [of ?data "set_column ''Date of Birth'' [''unknown''] ?data" _ _ ?parse ?strftime] date
    by blast
  moreover have "same_outside ''Age'' ?data (set_column ''Age'' [''unknown''] ?data)"
    using cleaning_steps_frame [of ?data "set_column ''Age'' [''unknown''] ?data"] age
    by blast
  moreover have "length (butlast ?data @ [(''Country'', [''USA''])]) = length ?data
      \<and> fst ((butlast ?data @ [(''Country'', [''USA''])]) ! 5) = ''Country''
      \<and> (butlast ?data @ [(''Country'', [''USA''])]) ! 4 = ?data ! 4"
    using cleaning_steps_frame [of ?data "butlast ?data @ [(''Country'', [''USA''])]"] country
    by (simp add: country_labels_def)
  ultimately show ?thesis
    unfolding Let_def using income name email date age country by blast
qed

section \<open>The subdomain inference\<close>

lemma fill_rows_nth:
  assumes "length rows_to_fill = length column"
  shows "length (fill_rows rows_to_fill suffix column) = length column"
    and "i < length column \<Longrightarrow>
      fill_rows rows_to_fill suffix column ! i =
        (if rows_to_fill ! i then fill_subdomain suffix (column ! i) else column ! i)"
  using assms by (simp_all add: fill_rows_def)

lemma rows_to_fill_nth:
  assumes "length emails_without_subdomain = length column"
  shows "length (map (\<lambda>(a, b). a \<and> b) (zip emails_without_subdomain (map found column)))
      = length column"
    and "i < length column \<Longrightarrow>
      map (\<lambda>(a, b). a \<and> b) (zip emails_without_subdomain (map found column)) ! i
        = (emails_without_subdomain ! i \<and> found (column ! i))"
  using assms by simp_all

text \<open>A round of the loop, when the label compiles: a suffix is put after the rows to fill.\<close>

lemma subdomain_round_result:
  assumes "engine label = Some found"
  shows "subdomain_round engine labels emails_without_subdomain label column =
    Inr (fill_rows (map (\<lambda>(a, b). a \<and> b) (zip emails_without_subdomain (map found column)))
          (case value_counts (subdomain_candidates label labels) of
             [] \<Rightarrow> ''com'' | (s, n) # rest \<Rightarrow> s)
          column)"
  using assms
  by (cases "value_counts (subdomain_candidates label labels)")
    (auto simp: subdomain_round_def str_contains_def Let_def)

lemma subdomain_round_compiles:
  "subdomain_round engine labels emails_without_subdomain label column = Inr column' \<Longrightarrow>
     \<exists>found. engine label = Some found"
  by (cases "engine label")
    (auto simp: subdomain_round_def str_contains_def Let_def split: if_splits)

lemma fill_subdomain_appends: "\<exists>appended. fill_subdomain suffix x = x @ appended"
  by (simp add: fill_subdomain_def)

lemma subdomain_round_frame:
  assumes "subdomain_round engine labels emails_without_subdomain label column = Inr column'"
    and "length emails_without_subdomain = length column"
  shows "length column' = length column"
    and "i < length column \<Longrightarrow> \<exists>appended. column' ! i = column ! i @ appended"
    and "i < length column \<Longrightarrow> \<not> emails_without_subdomain ! i \<Longrightarrow> column' ! i = column ! i"
proof -
  from assms(1) obtain found where found: "engine label = Some found"
    using subdomain_round_compiles by blast
  define suffix where "suffix =
    (case value_counts (subdomain_candidates label labels) of [] \<Rightarrow> ''com'' | (s, n) # rest \<Rightarrow> s)"
  define rows_to_fill where
    "rows_to_fill = map (\<lambda>(a, b). a \<and> b) (zip emails_without_subdomain (map found column))"
  from assms(1) have column': "column' = fill_rows rows_to_fill suffix column"
    unfolding subdomain_round_result [where engine = engine and label = label, OF found]
      suffix_def rows_to_fill_def
    by simp
  have len: "length rows_to_fill = length column"
    unfolding rows_to_fill_def using assms(2) by (rule rows_to_fill_nth(1))
  show "length column' = length column"
    unfolding column' using len by (rule fill_rows_nth(1))
  show "\<exists>appended. column' ! i = column ! i @ appended" if "i < length column"
    unfolding column' fill_rows_nth(2) [OF len that]
    using fill_subdomain_appends [of suffix "column ! i"] by simp
  show "column' ! i = column ! i" if "i < length column" "\<not> emails_without_subdomain ! i"
    unfolding column' fill_rows_nth(2) [OF len that(1)]
    using that rows_to_fill_nth(2) [OF assms(2), of i found] by (simp add: rows_to_fill_def)
qed

lemma subdomain_loop_frame:
  "subdomain_loop engine labels emails_without_subdomain domain_labels column = Inr column' \<Longrightarrow>
   length emails_without_subdomain = length column \<Longrightarrow>
     length column' = length column
     \<and> (\<forall>i < length column.
          (\<exists>appended. column' ! i = column ! i @ appended)
          \<and> (\<not> emails_without_subdomain ! i \<longrightarrow> column' ! i = column ! i))"
proof (induction domain_labels arbitrary: column)
  case Nil
  then show ?case by simp
next
  case (Cons label domain_labels)
  from Cons.prems(1) obtain middle where
    round: "subdomain_round engine labels emails_without_subdomain label column = Inr middle"
    and rest: "subdomain_loop engine labels emails_without_subdomain domain_labels middle
      = Inr column'"
    by (auto split: sum.splits)
  note first = subdomain_round_frame [OF round Cons.prems(2)]
  from first(1) Cons.prems(2) have len: "length emails_without_subdomain = length middle"
    by simp
  note second = Cons.IH [OF rest len]
  show ?case
  proof (intro conjI allI impI)
    show "length column' = length column"
      using first(1) second by simp
  next
    fix i
    assume i: "i < length column"
    from first(2) [OF i] obtain a where a: "middle ! i = column ! i @ a"
      by blast
    from second i first(1) obtain b where b: "column' ! i = middle ! i @ b"
      by auto
    from a b show "\<exists>appended. column' ! i = column ! i @ appended"
      by simp
  next
    fix i
    assume i: "i < length column" and no: "\<not> emails_without_subdomain ! i"
    from first(3) [OF i no] have "middle ! i = column ! i" .
    moreover from second i no first(1) have "column' ! i = middle ! i"
      by auto
    ultimately show "column' ! i = column ! i"
      by simp
  qed
qed

lemma filter_only_one:
  assumes "i < length xs" and "P (xs ! i)" and "\<forall>j < length xs. j \<noteq> i \<longrightarrow> \<not> P (xs ! j)"
  shows "filter P xs = [xs ! i]"
proof -
  have split: "xs = take i xs @ xs ! i # drop (Suc i) xs"
    using assms(1) by (rule id_take_nth_drop)
  have "\<forall>x \<in> set (take i xs). \<not> P x"
  proof
    fix x
    assume "x \<in> set (take i xs)"
    then obtain j where "j < length (take i xs)" "take i xs ! j = x"
      by (auto simp: in_set_conv_nth)
    with assms(1,3) show "\<not> P x" by auto
  qed
  then have before: "filter P (take i xs) = []"
    by simp
  have "\<forall>x \<in> set (drop (Suc i) xs). \<not> P x"
  proof
    fix x
    assume "x \<in> set (drop (Suc i) xs)"
    then obtain j where "j < length (drop (Suc i) xs)" "drop (Suc i) xs ! j = x"
      by (auto simp: in_set_conv_nth)
    with assms(1,3) show "\<not> P x" by auto
  qed
  then have after: "filter P (drop (Suc i) xs) = []"
    by simp
  have "filter P xs = filter P (take i xs @ xs ! i # drop (Suc i) xs)"
    using split by simp
  then show ?thesis
    using before after assms(2) by simp
qed

text \<open>\<^verbatim>\<open>value_counts\<close> puts a most frequent value first.\<close>

lemma value_counts_first:
  assumes "candidates \<noteq> []"
  shows "\<exists>s n rest. value_counts candidates = (s, n) # rest \<and> s \<in> set candidates
      \<and> n = count_list candidates s \<and> (\<forall>w. count_list candidates w \<le> n)"
proof -
  define tally where
    "tally = map (\<lambda>v. (v, count_list candidates v)) (rev (remdups (rev candidates)))"
  define key where "key = (\<lambda>(v :: string, n :: nat). - int n)"
  have vc: "value_counts candidates = sort_key key tally"
    by (simp add: value_counts_def tally_def key_def)
  have members: "set tally = (\<lambda>v. (v, count_list candidates v)) ` set candidates"
    by (simp add: tally_def)
  with assms have "sort_key key tally \<noteq> []"
    by (metis image_is_empty set_empty set_sort)
  then obtain s n rest where first: "sort_key key tally = (s, n) # rest"
    by (cases "sort_key key tally") auto
  then have "(s, n) \<in> set tally"
    by (metis list.set_intros(1) set_sort)
  with members have s: "s \<in> set candidates" and n: "n = count_list candidates s"
    by auto
  have "sorted (map key (sort_key key tally))"
    by (rule sorted_sort_key)
  with first have least: "\<forall>p \<in> set (sort_key key tally). key (s, n) \<le> key p"
    by auto
  have "count_list candidates w \<le> n" for w
  proof (cases "w \<in> set candidates")
    case True
    with members have "(w, count_list candidates w) \<in> set (sort_key key tally)"
      by simp
    with least have "key (s, n) \<le> key (w, count_list candidates w)"
      by blast
    then show ?thesis by (simp add: key_def)
  next
    case False
    then show ?thesis by (simp add: count_list_0_iff)
  qed
  with vc first s n show ?thesis by auto
qed

text \<open>The inference on a column with exactly one address whose label list has length one.\<close>

lemma assume_subdomains_one_row:
  assumes i: "i < length column"
    and one: "email_labels (py_strip (column ! i)) = [label]"
    and others: "\<forall>j < length column. j \<noteq> i \<longrightarrow> length (email_labels (py_strip (column ! j))) \<noteq> 1"
    and found: "engine label = Some found" "found (py_strip (column ! i))"
  shows "assume_subdomains engine column =
    Inr ((map py_strip column)
      [i := fill_subdomain
         (case value_counts
                 (subdomain_candidates label (map email_labels (map py_strip column))) of
            [] \<Rightarrow> ''com'' | (s, n) # rest \<Rightarrow> s)
         (py_strip (column ! i))])"
proof -
  define stripped where "stripped = map py_strip column"
  define labels where "labels = map email_labels stripped"
  define without where "without = map (\<lambda>x. length x = 1) labels"
  define suffix where "suffix =
    (case value_counts (subdomain_candidates label labels) of [] \<Rightarrow> ''com'' | (s, n) # rest \<Rightarrow> s)"
  have len: "length labels = length column" "length stripped = length column"
      "length without = length stripped"
    by (simp_all add: labels_def stripped_def without_def)
  have at_i: "labels ! i = [label]"
    using i one by (simp add: labels_def stripped_def)
  have elsewhere: "\<forall>j < length labels. j \<noteq> i \<longrightarrow> \<not> length (labels ! j) = 1"
    using others by (simp add: labels_def stripped_def)
  have "filter (\<lambda>x. length x = 1) labels = [labels ! i]"
    using i at_i elsewhere by (intro filter_only_one) (simp_all add: len)
  then have domain_labels: "map (\<lambda>l. l ! 0) (filter (\<lambda>x. length x = 1) labels) = [label]"
    using at_i by simp
  have run: "assume_subdomains engine column =
      subdomain_loop engine labels without [label] stripped"
    unfolding assume_subdomains_def Let_def domain_and_subdomain_def
    using domain_labels by (simp add: stripped_def labels_def without_def)
  define rows_to_fill where
    "rows_to_fill = map (\<lambda>(a, b). a \<and> b) (zip without (map found stripped))"
  have round: "subdomain_round engine labels without label stripped =
      Inr (fill_rows rows_to_fill suffix stripped)"
    unfolding subdomain_round_result [where engine = engine and label = label, OF found(1)]
      suffix_def rows_to_fill_def
    by simp
  have rlen: "length rows_to_fill = length stripped"
    unfolding rows_to_fill_def using len(3) by (rule rows_to_fill_nth(1))
  have "fill_rows rows_to_fill suffix stripped
      = stripped[i := fill_subdomain suffix (stripped ! i)]"
  proof (rule nth_equalityI)
    show "length (fill_rows rows_to_fill suffix stripped)
        = length (stripped[i := fill_subdomain suffix (stripped ! i)])"
      using fill_rows_nth(1) [OF rlen] by simp
  next
    fix j
    assume "j < length (fill_rows rows_to_fill suffix stripped)"
    then have j: "j < length stripped"
      using fill_rows_nth(1) [OF rlen] by simp
    have fill: "rows_to_fill ! j = (without ! j \<and> found (stripped ! j))"
      unfolding rows_to_fill_def using len(3) j by (rule rows_to_fill_nth(2))
    have fr: "fill_rows rows_to_fill suffix stripped ! j =
        (if rows_to_fill ! j then fill_subdomain suffix (stripped ! j) else stripped ! j)"
      using rlen j by (rule fill_rows_nth(2))
    show "fill_rows rows_to_fill suffix stripped ! j
        = stripped[i := fill_subdomain suffix (stripped ! i)] ! j"
    proof (cases "j = i")
      case True
      with at_i i found(2) fill have "rows_to_fill ! j"
        by (simp add: without_def len stripped_def)
      with True j fr show ?thesis
        by simp
    next
      case False
      with elsewhere j have "\<not> without ! j"
        by (simp add: without_def len)
      with fill have "\<not> rows_to_fill ! j"
        by simp
      with False j fr show ?thesis
        by simp
    qed
  qed
  with run round i show ?thesis
    by (simp add: stripped_def labels_def suffix_def)
qed

lemma assume_subdomains_frame:
  assumes "assume_subdomains engine column = Inr inferred"
  shows "length inferred = length column
     \<and> (\<forall>i < length column.
          (\<exists>appended. inferred ! i = py_strip (column ! i) @ appended)
          \<and> (length (email_labels (py_strip (column ! i))) \<noteq> 1 \<longrightarrow>
               inferred ! i = py_strip (column ! i)))"
proof -
  define stripped where "stripped = map py_strip column"
  define labels where "labels = map email_labels stripped"
  define without where "without = map (\<lambda>x. length x = 1) labels"
  from assms have run: "subdomain_loop engine labels without
      (map (\<lambda>l. l ! 0) (filter (\<lambda>x. length x = 1) labels)) stripped = Inr inferred"
    unfolding assume_subdomains_def Let_def domain_and_subdomain_def stripped_def
      labels_def without_def .
  have len: "length without = length stripped"
    by (simp add: without_def labels_def)
  from subdomain_loop_frame [OF run len]
  have "length inferred = length stripped"
    and "\<forall>i < length stripped.
          (\<exists>appended. inferred ! i = stripped ! i @ appended)
          \<and> (\<not> without ! i \<longrightarrow> inferred ! i = stripped ! i)"
    by simp_all
  then show ?thesis
    by (simp add: stripped_def without_def labels_def)
qed

text \<open>
  The loop as a whole: when every label compiles, each row to fill goes through the rounds
  on its own; a label that does not compile makes the loop fail.
\<close>

lemma subdomain_round_fails:
  "engine label = None \<Longrightarrow>
     subdomain_round engine labels emails_without_subdomain label column = Inl RegexError"
  by (simp add: subdomain_round_def str_contains_def Let_def)

lemma subdomain_round_map:
  assumes found: "engine label = Some found"
    and len: "length emails_without_subdomain = length column"
  shows "subdomain_round engine labels emails_without_subdomain label column =
    Inr (map (\<lambda>(m, x). if m \<and> found x then fill_subdomain (round_suffix label labels) x else x)
          (zip emails_without_subdomain column))"
proof -
  define rows_to_fill where
    "rows_to_fill = map (\<lambda>(a, b). a \<and> b) (zip emails_without_subdomain (map found column))"
  define suffix where "suffix = round_suffix label labels"
  have round: "subdomain_round engine labels emails_without_subdomain label column =
      Inr (fill_rows rows_to_fill suffix column)"
    unfolding subdomain_round_result [where engine = engine and label = label, OF found]
      suffix_def rows_to_fill_def round_suffix_def
    by simp
  have rlen: "length rows_to_fill = length column"
    unfolding rows_to_fill_def using len by (rule rows_to_fill_nth(1))
  have "fill_rows rows_to_fill suffix column =
      map (\<lambda>(m, x). if m \<and> found x then fill_subdomain suffix x else x)
        (zip emails_without_subdomain column)"
  proof (rule nth_equalityI)
    show "length (fill_rows rows_to_fill suffix column) =
        length (map (\<lambda>(m, x). if m \<and> found x then fill_subdomain suffix x else x)
          (zip emails_without_subdomain column))"
      using fill_rows_nth(1) [OF rlen] len by simp
  next
    fix i
    assume "i < length (fill_rows rows_to_fill suffix column)"
    then have i: "i < length column"
      using fill_rows_nth(1) [OF rlen] by simp
    have "rows_to_fill ! i = (emails_without_subdomain ! i \<and> found (column ! i))"
      unfolding rows_to_fill_def using len i by (rule rows_to_fill_nth(2))
    moreover have "fill_rows rows_to_fill suffix column ! i =
        (if rows_to_fill ! i then fill_subdomain suffix (column ! i) else column ! i)"
      using rlen i by (rule fill_rows_nth(2))
    ultimately show "fill_rows rows_to_fill suffix column ! i =
        map (\<lambda>(m, x). if m \<and> found x then fill_subdomain suffix x else x)
          (zip emails_without_subdomain column) ! i"
      using i len by simp
  qed
  with round show ?thesis
    unfolding suffix_def by simp
qed

lemma subdomain_loop_rounds:
  "\<forall>label \<in> set domain_labels. engine label \<noteq> None \<Longrightarrow>
   length emails_without_subdomain = length column \<Longrightarrow>
     subdomain_loop engine labels emails_without_subdomain domain_labels column =
       Inr (map (\<lambda>(m, x). if m then after_rounds engine labels domain_labels x else x)
             (zip emails_without_subdomain column))"
proof (induction domain_labels arbitrary: column)
  case Nil
  have "map (\<lambda>(m, x). if m then after_rounds engine labels [] x else x)
      (zip emails_without_subdomain column) = map snd (zip emails_without_subdomain column)"
    by (rule map_cong [OF refl]) auto
  then show ?case
    by (simp only: subdomain_loop.simps map_snd_zip [OF Nil.prems(2)])
next
  case (Cons label domain_labels)
  from Cons.prems(1) obtain found where found: "engine label = Some found"
    by auto
  define middle where "middle =
    map (\<lambda>(m, x). if m \<and> found x then fill_subdomain (round_suffix label labels) x else x)
      (zip emails_without_subdomain column)"
  have round: "subdomain_round engine labels emails_without_subdomain label column = Inr middle"
    unfolding middle_def using found Cons.prems(2) by (rule subdomain_round_map)
  have len: "length emails_without_subdomain = length middle"
    using Cons.prems(2) by (simp add: middle_def)
  from Cons.prems(1) have rest: "\<forall>label \<in> set domain_labels. engine label \<noteq> None"
    by simp
  have "map (\<lambda>(m, x). if m then after_rounds engine labels domain_labels x else x)
          (zip emails_without_subdomain middle)
      = map (\<lambda>(m, x). if m then after_rounds engine labels (label # domain_labels) x else x)
          (zip emails_without_subdomain column)"
  proof (rule nth_equalityI)
    show "length (map (\<lambda>(m, x). if m then after_rounds engine labels domain_labels x else x)
          (zip emails_without_subdomain middle))
      = length (map (\<lambda>(m, x). if m then after_rounds engine labels (label # domain_labels) x
          else x) (zip emails_without_subdomain column))"
      using len Cons.prems(2) by simp
  next
    fix i
    assume "i < length (map (\<lambda>(m, x). if m then after_rounds engine labels domain_labels x
        else x) (zip emails_without_subdomain middle))"
    then have i: "i < length column"
      using len Cons.prems(2) by simp
    then have "middle ! i =
        (if emails_without_subdomain ! i \<and> found (column ! i)
         then fill_subdomain (round_suffix label labels) (column ! i) else column ! i)"
      using Cons.prems(2) by (simp add: middle_def)
    with i len Cons.prems(2) found
    show "map (\<lambda>(m, x). if m then after_rounds engine labels domain_labels x else x)
          (zip emails_without_subdomain middle) ! i
      = map (\<lambda>(m, x). if m then after_rounds engine labels (label # domain_labels) x else x)
          (zip emails_without_subdomain column) ! i"
      by simp
  qed
  with round Cons.IH [OF rest len] show ?case
    by simp
qed

lemma subdomain_loop_fails:
  "\<exists>label \<in> set domain_labels. engine label = None \<Longrightarrow>
   length emails_without_subdomain = length column \<Longrightarrow>
     subdomain_loop engine labels emails_without_subdomain domain_labels column = Inl RegexError"
proof (induction domain_labels arbitrary: column)
  case Nil
  then show ?case by simp
next
  case (Cons label domain_labels)
  show ?case
  proof (cases "engine label")
    case None
    then show ?thesis
      by (simp add: subdomain_round_fails)
  next
    case (Some found)
    define middle where "middle =
      map (\<lambda>(m, x). if m \<and> found x then fill_subdomain (round_suffix label labels) x else x)
        (zip emails_without_subdomain column)"
    have round: "subdomain_round engine labels emails_without_subdomain label column = Inr middle"
      unfolding middle_def using Some Cons.prems(2) by (rule subdomain_round_map)
    have len: "length emails_without_subdomain = length middle"
      using Cons.prems(2) by (simp add: middle_def)
    from Cons.prems(1) Some have "\<exists>label \<in> set domain_labels. engine label = None"
      by auto
    then have "subdomain_loop engine labels emails_without_subdomain domain_labels middle
        = Inl RegexError"
      using len by (rule Cons.IH)
    with round show ?thesis
      by simp
  qed
qed

lemma map_zip_map_same: "map F (zip (map p xs) xs) = map (\<lambda>x. F (p x, x)) xs"
  by (induction xs) auto

lemma assume_subdomains_rounds:
  "assume_subdomains engine column =
     (if \<forall>label \<in> set (round_labels column). engine label \<noteq> None
      then Inr (map (\<lambda>x. if length (email_labels x) = 1
                         then after_rounds engine (map email_labels (map py_strip column))
                                (round_labels column) x
                         else x)
                 (map py_strip column))
      else Inl RegexError)"
proof -
  define stripped where "stripped = map py_strip column"
  define labels where "labels = map email_labels stripped"
  define without where "without = map (\<lambda>x. length x = 1) labels"
  have run: "assume_subdomains engine column =
      subdomain_loop engine labels without (round_labels column) stripped"
    unfolding assume_subdomains_def Let_def domain_and_subdomain_def round_labels_def
      stripped_def labels_def without_def ..
  have len: "length without = length stripped"
    by (simp add: without_def labels_def)
  have without: "without = map (\<lambda>x. length (email_labels x) = 1) stripped"
    by (simp add: without_def labels_def)
  show ?thesis
  proof (cases "\<forall>label \<in> set (round_labels column). engine label \<noteq> None")
    case True
    then have "subdomain_loop engine labels without (round_labels column) stripped =
        Inr (map (\<lambda>(m, x). if m then after_rounds engine labels (round_labels column) x else x)
              (zip without stripped))"
      using len by (rule subdomain_loop_rounds)
    then have "assume_subdomains engine column =
        Inr (map (\<lambda>x. if length (email_labels x) = 1
                       then after_rounds engine labels (round_labels column) x else x) stripped)"
      unfolding run without map_zip_map_same by simp
    with True show ?thesis
      by (simp add: labels_def stripped_def)
  next
    case False
    then have "\<exists>label \<in> set (round_labels column). engine label = None"
      by simp
    then have "subdomain_loop engine labels without (round_labels column) stripped
        = Inl RegexError"
      using len by (rule subdomain_loop_fails)
    with False run show ?thesis
      by simp
  qed
qed

text \<open>
  C1 (amended). Email suffix inference: the inference never puts a label before the base
  label of an address; it puts text at the end of addresses. Every address is trimmed of
  surrounding white space. An address whose domain portion (the text after the last
  \<^verbatim>\<open>@\<close>, without one final dot) has two or more labels, such as \<^verbatim>\<open>a@foo.com\<close> or
  \<^verbatim>\<open>b@mail.foo.com\<close>, is otherwise left as it is. The addresses whose domain portion is a
  single label with no dot in it are the rows to fill, and the loop runs one round for
  every such address, in row order, with that address's label (a label that k such
  addresses share gets k rounds). A round puts a dot (unless the address ends in one) and
  the round's suffix at the end of every row to fill in which the label, read as a regular
  expression, is found at that moment; the suffix is the most common second label among
  the addresses whose labels, more than one, hold the round's label, and \<^verbatim>\<open>com\<close> when there
  is no such address. The inference fails exactly when one of the round labels does not
  compile as a regular expression. In particular a column with \<^verbatim>\<open>a@foo.com\<close> and
  \<^verbatim>\<open>b@mail.foo.com\<close> is left unchanged; in a column with \<^verbatim>\<open>a@foo\<close> and \<^verbatim>\<open>b@foo.com\<close> the
  first address becomes \<^verbatim>\<open>a@foo.com\<close>; and a column with \<^verbatim>\<open>a@foo\<close> and \<^verbatim>\<open>b@foo\<close> has two
  rounds and becomes \<^verbatim>\<open>a@foo.com.com\<close> and \<^verbatim>\<open>b@foo.com.com\<close>.
\<close>

theorem subdomain_inference:
  "assume_subdomains engine column =
     (if \<forall>label \<in> set (round_labels column). engine label \<noteq> None
      then Inr (map (\<lambda>x. if length (email_labels x) = 1
                         then after_rounds engine (map email_labels (map py_strip column))
                                (round_labels column) x
                         else x)
                 (map py_strip column))
      else Inl RegexError)
   \<and> (assume_subdomains engine column = Inr inferred \<longrightarrow>
      length inferred = length column
      \<and> (\<forall>i < length column.
           (\<exists>appended. inferred ! i = py_strip (column ! i) @ appended)
           \<and> (length (email_labels (py_strip (column ! i))) \<noteq> 1 \<longrightarrow>
                inferred ! i = py_strip (column ! i))))
   \<and> (i < length column \<and> email_labels (py_strip (column ! i)) = [label]
       \<and> (\<forall>j < length column. j \<noteq> i \<longrightarrow> length (email_labels (py_strip (column ! j))) \<noteq> 1)
       \<and> engine label = Some found \<and> found (py_strip (column ! i)) \<longrightarrow>
        assume_subdomains engine column =
          Inr ((map py_strip column)
            [i := fill_subdomain
               (case value_counts
                       (subdomain_candidates label (map email_labels (map py_strip column))) of
                  [] \<Rightarrow> ''com'' | (s, n) # rest \<Rightarrow> s)
               (py_strip (column ! i))]))
   \<and> (candidates \<noteq> [] \<longrightarrow>
        (\<exists>s n rest. value_counts candidates = (s, n) # rest \<and> s \<in> set candidates
           \<and> n = count_list candidates s \<and> (\<forall>w. count_list candidates w \<le> n)))"
proof -
  have frame: "assume_subdomains engine column = Inr inferred \<longrightarrow>
      length inferred = length column
      \<and> (\<forall>i < length column.
           (\<exists>appended. inferred ! i = py_strip (column ! i) @ appended)
           \<and> (length (email_labels (py_strip (column ! i))) \<noteq> 1 \<longrightarrow>
                inferred ! i = py_strip (column ! i)))"
    using assume_subdomains_frame by blast
  have one: "i < length column \<and> email_labels (py_strip (column ! i)) = [label]
       \<and> (\<forall>j < length column. j \<noteq> i \<longrightarrow> length (email_labels (py_strip (column ! j))) \<noteq> 1)
       \<and> engine label = Some found \<and> found (py_strip (column ! i)) \<longrightarrow>
        assume_subdomains engine column =
          Inr ((map py_strip column)
            [i := fill_subdomain
               (case value_counts
                       (subdomain_candidates label (map email_labels (map py_strip column))) of
                  [] \<Rightarrow> ''com'' | (s, n) # rest \<Rightarrow> s)
               (py_strip (column ! i))])"
    using assume_subdomains_one_row [of i column label engine found] by blast
  have most: "candidates \<noteq> [] \<longrightarrow>
        (\<exists>s n rest. value_counts candidates = (s, n) # rest \<and> s \<in> set candidates
           \<and> n = count_list candidates s \<and> (\<forall>w. count_list candidates w \<le> n))"
    using value_counts_first by blast
  from assume_subdomains_rounds [of engine column] frame one most show ?thesis
    by blast
qed

theorem subdomain_inference_witness:
  "assume_subdomains plain_engine [''a@foo'', ''b@foo.com''] = Inr [''a@foo.com'', ''b@foo.com'']
   \<and> assume_subdomains plain_engine [''a@foo'', ''b@foo'']
       = Inr [''a@foo.com.com'', ''b@foo.com.com'']
   \<and> [''a@foo.com'', ''b@foo.com''] ! 1 = py_strip ([''a@foo'', ''b@foo.com''] ! 1)
   \<and> (\<exists>s n rest. value_counts [''com'', ''org'', ''com''] = (s, n) # rest
         \<and> n = count_list [''com'', ''org'', ''com''] s)"
proof -
  let ?column = "[''a@foo'', ''b@foo.com'']"
  let ?twice = "[''a@foo'', ''b@foo'']"
  have i: "0 < length ?column"
    by simp
  have label: "email_labels (py_strip (?column ! 0)) = [''foo'']"
    by code_simp
  have other: "length (email_labels (py_strip ''b@foo.com'')) \<noteq> 1"
    by code_simp
  have others: "\<forall>j < length ?column. j \<noteq> 0 \<longrightarrow>
      length (email_labels (py_strip (?column ! j))) \<noteq> 1"
    using other by (simp add: nth_Cons' less_Suc_eq numeral_2_eq_2)
  have found: "plain_engine ''foo'' = Some (py_in ''foo'')"
    by (simp add: plain_engine_def)
  have there: "py_in ''foo'' (py_strip (?column ! 0))"
    by code_simp
  have result: "(map py_strip ?column)
            [0 := fill_subdomain
               (case value_counts
                       (subdomain_candidates ''foo'' (map email_labels (map py_strip ?column))) of
                  [] \<Rightarrow> ''com'' | (s, n) # rest \<Rightarrow> s)
               (py_strip (?column ! 0))] = [''a@foo.com'', ''b@foo.com'']"
    by code_simp
  have "assume_subdomains plain_engine ?column =
          Inr ((map py_strip ?column)
            [0 := fill_subdomain
               (case value_counts
                       (subdomain_candidates ''foo'' (map email_labels (map py_strip ?column))) of
                  [] \<Rightarrow> ''com'' | (s, n) # rest \<Rightarrow> s)
               (py_strip (?column ! 0))])"
    using subdomain_inference
      [of plain_engine ?column "[]" 0 "''foo''" "py_in ''foo''" "[]"]
      i label others found there
    by blast
  then have run: "assume_subdomains plain_engine ?column = Inr [''a@foo.com'', ''b@foo.com'']"
    unfolding result .
  have rounds: "round_labels ?twice = [''foo'', ''foo'']"
    by code_simp
  have compiles: "\<forall>label \<in> set (round_labels ?twice). plain_engine label \<noteq> None"
    unfolding rounds by (simp add: plain_engine_def)
  have filled: "map (\<lambda>x. if length (email_labels x) = 1
                         then after_rounds plain_engine (map email_labels (map py_strip ?twice))
                                (round_labels ?twice) x
                         else x)
                 (map py_strip ?twice) = [''a@foo.com.com'', ''b@foo.com.com'']"
    by code_simp
  have "assume_subdomains plain_engine ?twice =
     (if \<forall>label \<in> set (round_labels ?twice). plain_engine label \<noteq> None
      then Inr (map (\<lambda>x. if length (email_labels x) = 1
                         then after_rounds plain_engine (map email_labels (map py_strip ?twice))
                                (round_labels ?twice) x
                         else x)
                 (map py_strip ?twice))
      else Inl RegexError)"
    using subdomain_inference [of plain_engine ?twice "[]" 0 "[]" "py_in []" "[]"]
    by blast
  then have twice: "assume_subdomains plain_engine ?twice
      = Inr [''a@foo.com.com'', ''b@foo.com.com'']"
    unfolding if_P [OF compiles] filled .
  have "1 < length ?column \<and> length (email_labels (py_strip (?column ! 1))) \<noteq> 1"
    using other by simp
  then have kept: "[''a@foo.com'', ''b@foo.com''] ! 1 = py_strip (?column ! 1)"
    using subdomain_inference
      [of plain_engine ?column "[''a@foo.com'', ''b@foo.com'']" 0 "[]" "py_in []" "[]"]
      run
    by blast
  have "\<exists>s n rest. value_counts [''com'', ''org'', ''com''] = (s, n) # rest
         \<and> n = count_list [''com'', ''org'', ''com''] s"
    using subdomain_inference
      [of plain_engine "[]" "[]" 0 "[]" "py_in []" "[''com'', ''org'', ''com'']"]
    by blast
  with run twice kept show ?thesis
    by blast
qed

text \<open>
  C1, as the specification words it, fails on its own scenario: in a column holding
  \<^verbatim>\<open>a@foo.com\<close> and \<^verbatim>\<open>b@mail.foo.com\<close> both label lists have more than one label, no round of
  the loop runs, and \<^verbatim>\<open>a@foo.com\<close> is not rewritten to \<^verbatim>\<open>a@mail.foo.com\<close>.
\<close>

theorem subdomain_inference_counterexample:
  "assume_subdomains plain_engine [''a@foo.com'', ''b@mail.foo.com'']
     = Inr [''a@foo.com'', ''b@mail.foo.com'']
   \<and> clean_email_column plain_engine [''a@foo.com'', ''b@mail.foo.com'']
     = Inr [''a@foo.com'', ''b@mail.foo.com'']"
  by code_simp

section \<open>The email normalizer: doubled at signs and the sentinel\<close>

lemma collapse_first:
  "\<not> py_in ''@@'' p \<Longrightarrow> p = [] \<or> last p \<noteq> CHR ''@'' \<Longrightarrow>
     py_replace ''@@'' ''@'' (p @ ''@@'' @ s) = p @ ''@'' @ py_replace ''@@'' ''@'' s"
proof (induction p)
  case Nil
  then show ?case by (simp add: py_replace.simps(2))
next
  case (Cons c p)
  show ?case
  proof (cases p)
    case Nil
    with Cons.prems show ?thesis by (simp add: py_replace.simps(2))
  next
    case (Cons d q)
    with Cons.prems Cons.IH show ?thesis by (auto simp: py_replace.simps(2))
  qed
qed

lemma collapse_none: "\<not> py_in ''@@'' v \<Longrightarrow> py_replace ''@@'' ''@'' v = v"
proof (induction v)
  case Nil
  then show ?case by simp
next
  case (Cons c v)
  then show ?case by (cases v) (auto simp: py_replace.simps(2))
qed

lemma collapse_other:
  "c \<noteq> CHR ''@'' \<Longrightarrow> py_replace ''@@'' ''@'' (c # s) = c # py_replace ''@@'' ''@'' s"
  by (simp add: py_replace.simps(2))

lemma collapse_single:
  "s = [] \<or> hd s \<noteq> CHR ''@'' \<Longrightarrow>
     py_replace ''@@'' ''@'' (CHR ''@'' # s) = CHR ''@'' # py_replace ''@@'' ''@'' s"
  by (cases s) (auto simp: py_replace.simps(2))

lemma collapse_double:
  "py_replace ''@@'' ''@'' (CHR ''@'' # CHR ''@'' # s) = CHR ''@'' # py_replace ''@@'' ''@'' s"
  by (simp add: py_replace.simps(2))

lemma collapse_head:
  "s = [] \<or> hd s \<noteq> CHR ''@'' \<Longrightarrow>
     py_replace ''@@'' ''@'' s = [] \<or> hd (py_replace ''@@'' ''@'' s) \<noteq> CHR ''@''"
  by (cases s) (auto simp: py_replace.simps(2))

lemma take_one: "(take (Suc 0) w = [c]) = (w \<noteq> [] \<and> hd w = c)"
  by (cases w) auto

text \<open>Where no three at signs follow one another, no doubled at sign is left.\<close>

lemma collapse_no_triple:
  "\<not> py_in ''@@@'' v \<Longrightarrow> \<not> py_in ''@@'' (py_replace ''@@'' ''@'' v)"
proof (induction v rule: length_induct)
  case (1 v)
  show ?case
  proof (cases v)
    case Nil
    then show ?thesis by simp
  next
    case (Cons c s)
    show ?thesis
    proof (cases "c = CHR ''@''")
      case False
      from "1.prems" Cons have "\<not> py_in ''@@@'' s"
        by simp
      with "1.IH" Cons have "\<not> py_in ''@@'' (py_replace ''@@'' ''@'' s)"
        by simp
      with False Cons show ?thesis
        by (simp add: collapse_other)
    next
      case at: True
      show ?thesis
      proof (cases "s = [] \<or> hd s \<noteq> CHR ''@''")
        case True
        from "1.prems" Cons have "\<not> py_in ''@@@'' s"
          by simp
        with "1.IH" Cons have rest: "\<not> py_in ''@@'' (py_replace ''@@'' ''@'' s)"
          by simp
        from True have "py_replace ''@@'' ''@'' s = [] \<or> hd (py_replace ''@@'' ''@'' s) \<noteq> CHR ''@''"
          by (rule collapse_head)
        with rest at Cons True show ?thesis
          by (auto simp: collapse_single take_one)
      next
        case False
        then obtain t where s: "s = CHR ''@'' # t"
          by (cases s) auto
        from "1.prems" Cons at s have start: "t = [] \<or> hd t \<noteq> CHR ''@''"
          by (cases t) auto
        from "1.prems" Cons s have "\<not> py_in ''@@@'' t"
          by simp
        with "1.IH" Cons s have rest: "\<not> py_in ''@@'' (py_replace ''@@'' ''@'' t)"
          by simp
        from start have "py_replace ''@@'' ''@'' t = [] \<or> hd (py_replace ''@@'' ''@'' t) \<noteq> CHR ''@''"
          by (rule collapse_head)
        with rest at Cons s show ?thesis
          by (auto simp: collapse_double take_one)
      qed
    qed
  qed
qed

lemma series_replace_sentinel:
  "series_replace [(k, r)] column = map (\<lambda>x. if x = k then r else x) column"
  by (simp add: series_replace_def)

text \<open>
  C9 (amended). Email: in every email value the occurrences of \<^verbatim>\<open>@@\<close> are replaced by
  \<^verbatim>\<open>@\<close> in one pass, from the left and without overlap: the text up to the first \<^verbatim>\<open>@@\<close>
  stays, the \<^verbatim>\<open>@@\<close> becomes \<^verbatim>\<open>@\<close>, the rest of the value is treated in the same way, and
  a value without \<^verbatim>\<open>@@\<close> is unchanged. So a value in which no three at signs follow one
  another comes out without \<^verbatim>\<open>@@\<close>, while a longer run of at signs can keep a doubled one
  (\<^verbatim>\<open>a@@@b.com\<close> becomes \<^verbatim>\<open>a@@b.com\<close>). The collapsed column goes through the subdomain
  inference, which succeeds exactly when every label it runs a round for compiles as a
  regular expression, and after it exactly the values equal to \<^verbatim>\<open>.com\<close> are replaced with
  \<^verbatim>\<open>unknown\<close>; a value that only ends in \<^verbatim>\<open>.com\<close> is kept. An address whose domain portion
  has two or more labels reaches the last replacement as its collapsed self, trimmed of
  surrounding white space.
\<close>

theorem email_collapse_and_sentinel:
  "(\<not> py_in ''@@'' p \<and> (p = [] \<or> last p \<noteq> CHR ''@'') \<longrightarrow>
      py_replace ''@@'' ''@'' (p @ ''@@'' @ s) = p @ ''@'' @ py_replace ''@@'' ''@'' s)
   \<and> (\<not> py_in ''@@'' v \<longrightarrow> py_replace ''@@'' ''@'' v = v)
   \<and> (\<not> py_in ''@@@'' v \<longrightarrow> \<not> py_in ''@@'' (py_replace ''@@'' ''@'' v))
   \<and> ((\<forall>label \<in> set (round_labels (map (py_replace ''@@'' ''@'') column)). engine label \<noteq> None) \<longrightarrow>
        (\<exists>inferred.
           assume_subdomains engine (map (py_replace ''@@'' ''@'') column) = Inr inferred
           \<and> clean_email_column engine column =
               Inr (map (\<lambda>x. if x = ''.com'' then ''unknown'' else x) inferred)
           \<and> length inferred = length column
           \<and> (\<forall>i < length column.
                length (email_labels (py_strip (py_replace ''@@'' ''@'' (column ! i)))) \<noteq> 1 \<longrightarrow>
                  inferred ! i = py_strip (py_replace ''@@'' ''@'' (column ! i)))))
   \<and> ((\<exists>label \<in> set (round_labels (map (py_replace ''@@'' ''@'') column)). engine label = None) \<longrightarrow>
        clean_email_column engine column = Inl RegexError)"
proof -
  define collapsed where "collapsed = map (py_replace ''@@'' ''@'') column"
  have step: "clean_email_column engine column =
      (case assume_subdomains engine collapsed of
         Inl e \<Rightarrow> Inl e
       | Inr inferred \<Rightarrow> Inr (map (\<lambda>x. if x = ''.com'' then ''unknown'' else x) inferred))"
    by (simp add: clean_email_column_def str_replace_def series_replace_sentinel collapsed_def
        split: sum.splits)
  have succeeds: "(\<forall>label \<in> set (round_labels collapsed). engine label \<noteq> None) \<longrightarrow>
        (\<exists>inferred.
           assume_subdomains engine collapsed = Inr inferred
           \<and> clean_email_column engine column =
               Inr (map (\<lambda>x. if x = ''.com'' then ''unknown'' else x) inferred)
           \<and> length inferred = length column
           \<and> (\<forall>i < length column.
                length (email_labels (py_strip (py_replace ''@@'' ''@'' (column ! i)))) \<noteq> 1 \<longrightarrow>
                  inferred ! i = py_strip (py_replace ''@@'' ''@'' (column ! i))))"
  proof
    assume "\<forall>label \<in> set (round_labels collapsed). engine label \<noteq> None"
    then obtain inferred where run: "assume_subdomains engine collapsed = Inr inferred"
      by (simp add: assume_subdomains_rounds)
    from assume_subdomains_frame [OF run]
    have "length inferred = length collapsed"
      and "\<forall>i < length collapsed.
             length (email_labels (py_strip (collapsed ! i))) \<noteq> 1 \<longrightarrow>
               inferred ! i = py_strip (collapsed ! i)"
      by simp_all
    then have "length inferred = length column"
      and "\<forall>i < length column.
                length (email_labels (py_strip (py_replace ''@@'' ''@'' (column ! i)))) \<noteq> 1 \<longrightarrow>
                  inferred ! i = py_strip (py_replace ''@@'' ''@'' (column ! i))"
      by (simp_all add: collapsed_def)
    moreover from run step have "clean_email_column engine column =
        Inr (map (\<lambda>x. if x = ''.com'' then ''unknown'' else x) inferred)"
      by simp
    ultimately show "\<exists>inferred.
           assume_subdomains engine collapsed = Inr inferred
           \<and> clean_email_column engine column =
               Inr (map (\<lambda>x. if x = ''.com'' then ''unknown'' else x) inferred)
           \<and> length inferred = length column
           \<and> (\<forall>i < length column.
                length (email_labels (py_strip (py_replace ''@@'' ''@'' (column ! i)))) \<noteq> 1 \<longrightarrow>
                  inferred ! i = py_strip (py_replace ''@@'' ''@'' (column ! i)))"
      using run by blast
  qed
  have fails: "(\<exists>label \<in> set (round_labels collapsed). engine label = None) \<longrightarrow>
        clean_email_column engine column = Inl RegexError"
  proof
    assume "\<exists>label \<in> set (round_labels collapsed). engine label = None"
    then have "assume_subdomains engine collapsed = Inl RegexError"
      by (auto simp: assume_subdomains_rounds)
    with step show "clean_email_column engine column = Inl RegexError"
      by simp
  qed
  from succeeds fails show ?thesis
    unfolding collapsed_def
    using collapse_first collapse_none collapse_no_triple by blast
qed

theorem email_collapse_and_sentinel_witness:
  "py_replace ''@@'' ''@'' ''j@@gmail.com'' = ''j@gmail.com''
   \<and> \<not> py_in ''@@'' (py_replace ''@@'' ''@'' ''j@@gmail.com'')
   \<and> clean_email_column plain_engine [''j@@gmail.com'', []] = Inr [''j@gmail.com'', ''unknown'']"
proof -
  let ?column = "[''j@@gmail.com'', []]"
  have "py_replace ''@@'' ''@'' (''j'' @ ''@@'' @ ''gmail.com'')
      = ''j'' @ ''@'' @ py_replace ''@@'' ''@'' ''gmail.com''"
    using email_collapse_and_sentinel [of "''j''" "''gmail.com''" "[]" "[]" plain_engine]
    by simp
  moreover have "py_replace ''@@'' ''@'' ''gmail.com'' = ''gmail.com''"
    using email_collapse_and_sentinel [of "[]" "[]" "''gmail.com''" "[]" plain_engine]
    by simp
  ultimately have collapse: "py_replace ''@@'' ''@'' ''j@@gmail.com'' = ''j@gmail.com''"
    by simp
  have "\<not> py_in ''@@@'' ''j@@gmail.com''"
    by simp
  then have single: "\<not> py_in ''@@'' (py_replace ''@@'' ''@'' ''j@@gmail.com'')"
    using email_collapse_and_sentinel [of "[]" "[]" "''j@@gmail.com''" "[]" plain_engine]
    by blast
  have rounds: "round_labels (map (py_replace ''@@'' ''@'') ?column) = [[]]"
    by code_simp
  have compiles: "\<forall>label \<in> set (round_labels (map (py_replace ''@@'' ''@'') ?column)).
      plain_engine label \<noteq> None"
    unfolding rounds by (simp add: plain_engine_def)
  have run: "assume_subdomains plain_engine (map (py_replace ''@@'' ''@'') ?column)
      = Inr [''j@gmail.com'', ''.com'']"
    by code_simp
  from compiles obtain inferred where
    "assume_subdomains plain_engine (map (py_replace ''@@'' ''@'') ?column) = Inr inferred"
    and cleaned: "clean_email_column plain_engine ?column =
      Inr (map (\<lambda>x. if x = ''.com'' then ''unknown'' else x) inferred)"
    using email_collapse_and_sentinel [of "[]" "[]" "[]" ?column plain_engine]
    by blast
  with run have "inferred = [''j@gmail.com'', ''.com'']"
    by simp
  with cleaned have "clean_email_column plain_engine ?column = Inr [''j@gmail.com'', ''unknown'']"
    by simp
  with collapse single show ?thesis
    by blast
qed

text \<open>
  C9, as the specification words it, fails: the value \<^verbatim>\<open>a@@@b.com\<close> holds a doubled at
  sign, and its output \<^verbatim>\<open>a@@b.com\<close> still holds one, since the replacement makes one pass.
\<close>

theorem email_collapse_and_sentinel_counterexample:
  "py_in ''@@'' ''a@@@b.com''
   \<and> clean_email_column plain_engine [''a@@@b.com''] = Inr [''a@@b.com'']
   \<and> py_in ''@@'' ''a@@b.com''"
  by code_simp

end
